theory Spec2Isabelle
  imports Complex_Main
begin

section \<open>Mock SSE log-streaming server: the GET handler of simple-sse-server.py\<close>

text \<open>
  The development embeds \<open>SSEHandler.do_GET\<close>.  The handler is modelled from the point
  where the request target has been split by the library: \<open>path\<close> is
  \<open>urlparse(self.path).path\<close> and \<open>query\<close> is the dictionary returned by
  \<open>parse_qs(urlparse(self.path).query)\<close>.  Everything the handler does to the outside
  world is recorded, in order, in a trace of events; the clock, the formatted local time
  and the outcome of every operation on the connection and of every suspension are
  supplied by an environment.
\<close>

subsection \<open>Strings\<close>

text \<open>
  Protocol text (paths, header names, ids, query values) is a \<open>string\<close>, each
  \<open>char\<close> one code point below 256; query values with code points beyond that are
  outside the model.  The Korean message texts of the source are Python \<open>str\<close> values
  outside ASCII; they are kept as lists of Unicode code points.
\<close>

type_synonym ustr = "nat list"

definition ascii :: "string \<Rightarrow> ustr" where
  "ascii s = map of_char s"

subsection \<open>Exceptions, floats and the builtins \<open>int\<close>, \<open>float\<close>, \<open>str\<close>, \<open>time.sleep\<close>\<close>

text \<open>
  Every exception of the model is a subclass of Python's \<open>Exception\<close>.  \<open>OSError\<close>
  stands for any failure reported by the operating system other than a broken pipe.
\<close>

datatype exn = ValueError | IndexError | OverflowError | BrokenPipeError | OSError

text \<open>
  A Python float is an IEEE binary64 value: \<open>Finite r\<close> with \<open>r\<close> the rational the
  double denotes, or one of the three special values.  The two zeros are not told apart
  (nothing in the handler does).  \<open>round_double\<close> rounds a rational to the nearest
  double, ties to the even significand, subnormals included, and to infinity from
  \<open>2 ^ 1024 - 2 ^ 970\<close> on; it is the rounding of \<open>float(...)\<close>, of the division
  and of the multiplication below.
\<close>

datatype pyfloat = Finite rat | PosInf | NegInf | NaN

text \<open>\<open>ilog2 n\<close> is the integer part of the binary logarithm of \<open>n \<ge> 1\<close>.\<close>

function ilog2 :: "int \<Rightarrow> int" where
  "ilog2 n = (if n < 2 then 0 else 1 + ilog2 (n div 2))"
  by auto
termination
  by (relation "measure nat") auto

declare ilog2.simps [simp del]

definition pow2 :: "int \<Rightarrow> rat" where
  "pow2 e = (if 0 \<le> e then 2 ^ nat e else 1 / 2 ^ nat (- e))"

definition round_half_even :: "rat \<Rightarrow> int" where
  "round_half_even x =
     (let f = \<lfloor>x\<rfloor>; d = x - of_int f
      in if d < 1 / 2 then f
         else if 1 / 2 < d then f + 1
         else if even f then f else f + 1)"

text \<open>\<open>binade a\<close> is the integer \<open>e\<close> with \<open>2 ^ e \<le> a < 2 ^ (e + 1)\<close>, for \<open>a > 0\<close>.\<close>

definition binade :: "rat \<Rightarrow> int" where
  "binade a =
     (let (p, d) = quotient_of a;
          k = ilog2 p - ilog2 d
      in if pow2 k \<le> a then k else k - 1)"

text \<open>The nearest multiple of \<open>2 ^ u\<close>, ties to the even multiple.\<close>

definition round_to_ulp :: "rat \<Rightarrow> int \<Rightarrow> rat" where
  "round_to_ulp a u = of_int (round_half_even (a / pow2 u)) * pow2 u"

definition signed_double :: "bool \<Rightarrow> rat \<Rightarrow> pyfloat" where
  "signed_double neg r =
     (if pow2 1024 \<le> r then (if neg then NegInf else PosInf)
      else Finite (if neg then - r else r))"

definition round_double :: "rat \<Rightarrow> pyfloat" where
  "round_double q =
     (if q = 0 then Finite 0
      else signed_double (q < 0) (round_to_ulp \<bar>q\<bar> (max (binade \<bar>q\<bar>) (- 1022) - 52)))"

text \<open>
  The whitespace that \<open>int\<close> and \<open>float\<close> strip from both ends of a \<open>str\<close>,
  among the code points below 256: tab to carriage return, space, \<open>0x85\<close> and
  \<open>0xA0\<close>.  The information separators \<open>0x1C\<close> to \<open>0x1F\<close> are not among them.
\<close>

definition is_space :: "char \<Rightarrow> bool" where
  "is_space c = ((of_char c :: nat) \<in> {9, 10, 11, 12, 13, 32, 133, 160})"

definition is_digit :: "char \<Rightarrow> bool" where
  "is_digit c = (48 \<le> (of_char c :: nat) \<and> (of_char c :: nat) \<le> 57)"

definition digit_val :: "char \<Rightarrow> nat" where
  "digit_val c = of_char c - 48"

definition strip :: "string \<Rightarrow> string" where
  "strip s = rev (dropWhile is_space (rev (dropWhile is_space s)))"

definition split_sign :: "string \<Rightarrow> bool \<times> string" where
  "split_sign s =
     (case s of
        [] \<Rightarrow> (False, [])
      | c # r \<Rightarrow> if c = CHR ''-'' then (True, r)
                 else if c = CHR ''+'' then (False, r)
                 else (False, s))"

text \<open>
  A digit part is a non-empty run of decimal digits in which single underscores may
  stand between two digits.
\<close>

fun digitpart :: "string \<Rightarrow> bool" where
  "digitpart [] = False"
| "digitpart [c] = is_digit c"
| "digitpart (c # d # r) =
     (is_digit c \<and> (if d = CHR ''_'' then digitpart r else digitpart (d # r)))"

definition digits_value :: "string \<Rightarrow> nat" where
  "digits_value s = foldl (\<lambda>a c. 10 * a + digit_val c) 0 (filter is_digit s)"

text \<open>
  \<open>int(s)\<close> on a \<open>str\<close>: surrounding whitespace is stripped, one sign is allowed, the rest
  is a digit part of at most 4300 digits (the interpreter's default limit for the
  conversion).  Anything else raises \<open>ValueError\<close>.
\<close>

definition py_int :: "string \<Rightarrow> exn + int" where
  "py_int s =
     (let (neg, r) = split_sign (strip s)
      in if digitpart r \<and> length (filter is_digit r) \<le> 4300
         then Inr (if neg then - int (digits_value r) else int (digits_value r))
         else Inl ValueError)"

definition lower :: "char \<Rightarrow> char" where
  "lower c = (if 65 \<le> (of_char c :: nat) \<and> (of_char c :: nat) \<le> 90
              then char_of ((of_char c :: nat) + 32) else c)"

definition is_e :: "char \<Rightarrow> bool" where
  "is_e c = (c = CHR ''e'' \<or> c = CHR ''E'')"

definition parse_exponent :: "string \<Rightarrow> int option" where
  "parse_exponent ex =
     (case ex of
        [] \<Rightarrow> Some 0
      | _ # t \<Rightarrow>
          (let (neg, d) = split_sign t
           in if digitpart d
              then Some (if neg then - int (digits_value d) else int (digits_value d))
              else None))"

definition parse_mantissa :: "string \<Rightarrow> rat option" where
  "parse_mantissa m =
     (let ip = takeWhile (\<lambda>c. c \<noteq> CHR ''.'') m;
          rest = dropWhile (\<lambda>c. c \<noteq> CHR ''.'') m
      in case rest of
           [] \<Rightarrow> if digitpart ip then Some (of_nat (digits_value ip)) else None
         | _ # fp \<Rightarrow>
             if (ip = [] \<or> digitpart ip) \<and> (fp = [] \<or> digitpart fp) \<and> \<not> (ip = [] \<and> fp = [])
             then Some (of_nat (digits_value ip)
                        + of_nat (digits_value fp) / 10 ^ length (filter is_digit fp))
             else None)"

definition parse_number :: "string \<Rightarrow> rat option" where
  "parse_number r =
     (case parse_mantissa (takeWhile (\<lambda>c. \<not> is_e c) r) of
        None \<Rightarrow> None
      | Some m \<Rightarrow>
          (case parse_exponent (dropWhile (\<lambda>c. \<not> is_e c) r) of
             None \<Rightarrow> None
           | Some e \<Rightarrow> Some (if 0 \<le> e then m * 10 ^ nat e else m / 10 ^ nat (- e))))"

text \<open>
  \<open>float(s)\<close> on a \<open>str\<close>: stripped, optionally signed, then \<open>inf\<close>, \<open>infinity\<close> or
  \<open>nan\<close> in any letter case, or a decimal number with optional fraction and exponent,
  rounded to the nearest double.
\<close>

definition py_float :: "string \<Rightarrow> exn + pyfloat" where
  "py_float s =
     (let (neg, r) = split_sign (strip s); l = map lower r
      in if l = ''inf'' \<or> l = ''infinity'' then Inr (if neg then NegInf else PosInf)
         else if l = ''nan'' then Inr NaN
         else (case parse_number r of
                 None \<Rightarrow> Inl ValueError
               | Some v \<Rightarrow> Inr (round_double (if neg then - v else v))))"

text \<open>\<open>x / d\<close> for a float \<open>x\<close> and a finite positive divisor \<open>d\<close>.\<close>

definition fdiv :: "pyfloat \<Rightarrow> rat \<Rightarrow> pyfloat" where
  "fdiv x d = (case x of Finite r \<Rightarrow> round_double (r / d) | PosInf \<Rightarrow> PosInf
               | NegInf \<Rightarrow> NegInf | NaN \<Rightarrow> NaN)"

text \<open>
  What \<open>time.sleep(x)\<close> raises before it asks the operating system to suspend: the
  interpreter turns \<open>x\<close> into a whole number of nanoseconds (the double \<open>x * 1e9\<close>,
  rounded away from zero) and raises \<open>ValueError\<close> when \<open>x\<close> is not a number,
  \<open>OverflowError\<close> when the nanoseconds do not fit 64 signed bits, and
  \<open>ValueError\<close> when they are negative.
\<close>

definition sleep_error :: "pyfloat \<Rightarrow> exn option" where
  "sleep_error x =
     (case x of
        NaN \<Rightarrow> Some ValueError
      | PosInf \<Rightarrow> Some OverflowError
      | NegInf \<Rightarrow> Some OverflowError
      | Finite r \<Rightarrow>
          (case round_double (r * 10 ^ 9) of
             Finite t \<Rightarrow>
               (let n = (if 0 \<le> t then \<lceil>t\<rceil> else \<lfloor>t\<rfloor>)
                in if n < - (2 ^ 63) \<or> 2 ^ 63 \<le> n then Some OverflowError
                   else if n < 0 then Some ValueError
                   else None)
           | PosInf \<Rightarrow> Some OverflowError
           | NegInf \<Rightarrow> Some OverflowError
           | NaN \<Rightarrow> Some ValueError))"

text \<open>\<open>str(n)\<close> for an integer: decimal digits, with a leading minus sign when negative.\<close>

definition digit_char :: "nat \<Rightarrow> char" where
  "digit_char d = char_of (48 + d)"

fun str_nat :: "nat \<Rightarrow> string" where
  "str_nat n = (if n < 10 then [digit_char n]
                else str_nat (n div 10) @ [digit_char (n mod 10)])"

declare str_nat.simps [simp del]

definition str_int :: "int \<Rightarrow> string" where
  "str_int i = (if i < 0 then CHR ''-'' # str_nat (nat (- i)) else str_nat (nat i))"

text \<open>\<open>xs[:c]\<close>: a negative bound counts from the end of the list.\<close>

definition py_slice_to :: "'a list \<Rightarrow> int \<Rightarrow> 'a list" where
  "py_slice_to xs c =
     (if 0 \<le> c then take (nat c) xs
      else take (nat (max 0 (int (length xs) + c))) xs)"

subsection \<open>Data model\<close>

record log_entry =
  workerId :: string
  level :: string
  message :: ustr
  timestamp :: string

record complete_data =
  c_message :: ustr
  c_timestamp :: string
  totalLogs :: int

text \<open>
  The objects handed to \<open>json.dumps\<close>.  \<open>HealthData status timestamp activeConnections server\<close>
  and \<open>ErrorData message error statusCode server\<close> are the two bodies of the sibling routes.
\<close>

datatype json_body =
  LogEntry log_entry
| CompleteData complete_data
| HealthData string string int string
| ErrorData string string int string

text \<open>
  What is handed to \<open>wfile.write\<close>: \<open>Frame ev d i\<close> is the UTF-8 text
  \<open>event: ev\ndata: json.dumps(d)\nid: i\n\n\<close>; \<open>Body d\<close> is \<open>json.dumps(d)\<close> alone.
\<close>

datatype wire = Frame string json_body string | Body json_body

text \<open>
  \<open>SendResponse n\<close> is the library's \<open>send_response(n)\<close>, which also logs the
  request line; \<open>SendHeader k v\<close> is \<open>send_header(k, v)\<close>.

  The two lines the handler prints: the fixed text of the \<open>BrokenPipeError\<close> clause, and
  the text of the \<open>Exception\<close> clause, which includes the exception.
\<close>

datatype console_line = ClientClosed | StreamError exn

datatype event =
  SendResponse nat
| SendHeader string string
| EndHeaders
| Write wire
| Flush
| Sleep pyfloat
| Print console_line

text \<open>
  The environment of one request: \<open>clock n\<close> is the value of \<open>int(time.time() * 1000)\<close>
  at the \<open>n\<close>-th reading of the clock, \<open>strftime\<close> the value of
  \<open>time.strftime("%Y-%m-%dT%H:%M:%SZ")\<close>, and \<open>io n\<close> the outcome of the \<open>n\<close>-th
  operation on the connection (\<open>end_headers\<close>, \<open>wfile.write\<close>, \<open>wfile.flush\<close>):
  \<open>None\<close> when it succeeds, the exception it raises otherwise.  \<open>nap n\<close> is the
  outcome of the \<open>n\<close>-th suspension asked of the operating system, which may refuse
  (\<open>OSError\<close> for a duration it cannot serve).
\<close>

record env =
  clock :: "nat \<Rightarrow> int"
  strftime :: string
  io :: "nat \<Rightarrow> exn option"
  nap :: "nat \<Rightarrow> exn option"

record state =
  trace :: "event list"
  nio :: nat
  nclk :: nat

definition init :: state where
  "init = \<lparr>trace = [], nio = 0, nclk = 0\<rparr>"

definition emit :: "event \<Rightarrow> state \<Rightarrow> state" where
  "emit ev s = s\<lparr>trace := trace s @ [ev]\<rparr>"

text \<open>An operation on the connection is recorded when it is attempted.\<close>

definition attempt :: "env \<Rightarrow> event \<Rightarrow> state \<Rightarrow> exn option \<times> state" where
  "attempt E ev s = (io E (nio s), s\<lparr>trace := trace s @ [ev], nio := Suc (nio s)\<rparr>)"

definition end_headers :: "env \<Rightarrow> state \<Rightarrow> exn option \<times> state" where
  "end_headers E s = attempt E EndHeaders s"

definition wfile_write :: "env \<Rightarrow> wire \<Rightarrow> state \<Rightarrow> exn option \<times> state" where
  "wfile_write E w s = attempt E (Write w) s"

definition wfile_flush :: "env \<Rightarrow> state \<Rightarrow> exn option \<times> state" where
  "wfile_flush E s = attempt E Flush s"

definition sleeps :: "event list \<Rightarrow> pyfloat list" where
  "sleeps tr = concat (map (\<lambda>ev. case ev of Sleep x \<Rightarrow> [x] | _ \<Rightarrow> []) tr)"

text \<open>
  \<open>time.sleep(x)\<close>: the interpreter's own checks first; a suspension that is asked of
  the operating system is recorded, and is the next one of the environment.
\<close>

definition time_sleep :: "env \<Rightarrow> pyfloat \<Rightarrow> state \<Rightarrow> exn option \<times> state" where
  "time_sleep E x s =
     (case sleep_error x of
        Some e \<Rightarrow> (Some e, s)
      | None \<Rightarrow> (nap E (length (sleeps (trace s))), emit (Sleep x) s))"

subsection \<open>The catalogue\<close>

definition mock_logs :: "log_entry list" where
  "mock_logs = [
    \<lparr>workerId = ''worker-1'', level = ''INFO'',
     message = ascii ''=== '' @ [0xBE4C, 0xB4DC] @ ascii '' '' @ [0xC2DC, 0xC791] @ ascii '' ==='',
     timestamp = ''2025-09-09T11:00:00Z''\<rparr>,
    \<lparr>workerId = ''worker-1'', level = ''INFO'',
     message = [0xD504, 0xB85C, 0xC81D, 0xD2B8] @ ascii '' '' @ [0xC758, 0xC874, 0xC131]
               @ ascii '' '' @ [0xC124, 0xCE58] @ ascii '' '' @ [0xC911] @ ascii ''...'',
     timestamp = ''2025-09-09T11:00:01Z''\<rparr>,
    \<lparr>workerId = ''worker-1'', level = ''INFO'',
     message = [0xD328, 0xD0A4, 0xC9C0] @ ascii '' '' @ [0xB2E4, 0xC6B4, 0xB85C, 0xB4DC]
               @ ascii '': axios@5.2.2'',
     timestamp = ''2025-09-09T11:00:02Z''\<rparr>,
    \<lparr>workerId = ''worker-2'', level = ''DEBUG'',
     message = ascii ''TypeScript '' @ [0xCEF4, 0xD30C, 0xC77C] @ ascii '' '' @ [0xC2DC, 0xC791],
     timestamp = ''2025-09-09T11:00:03Z''\<rparr>,
    \<lparr>workerId = ''worker-2'', level = ''INFO'',
     message = [0xCEF4, 0xD30C, 0xC77C] @ ascii '' '' @ [0xC644, 0xB8CC] @ ascii '': 125''
               @ [0xAC1C] @ ascii '' '' @ [0xD30C, 0xC77C] @ ascii '' '' @ [0xCC98, 0xB9AC],
     timestamp = ''2025-09-09T11:00:05Z''\<rparr>,
    \<lparr>workerId = ''worker-1'', level = ''INFO'',
     message = ascii ''=== '' @ [0xD14C, 0xC2A4, 0xD2B8] @ ascii '' '' @ [0xC2E4, 0xD589]
               @ ascii '' '' @ [0xC2DC, 0xC791] @ ascii '' ==='',
     timestamp = ''2025-09-09T11:00:06Z''\<rparr>,
    \<lparr>workerId = ''worker-3'', level = ''WARN'',
     message = ascii ''WARNING: deprecated package detected'',
     timestamp = ''2025-09-09T11:00:07Z''\<rparr>,
    \<lparr>workerId = ''worker-2'', level = ''INFO'',
     message = ascii ''Jest '' @ [0xD14C, 0xC2A4, 0xD2B8] @ ascii '' '' @ [0xC2E4, 0xD589]
               @ ascii '' '' @ [0xC911] @ ascii ''...'',
     timestamp = ''2025-09-09T11:00:08Z''\<rparr>,
    \<lparr>workerId = ''worker-2'', level = ''INFO'',
     message = [0xD14C, 0xC2A4, 0xD2B8] @ ascii '' '' @ [0xD1B5, 0xACFC]
               @ ascii '': should authenticate user'',
     timestamp = ''2025-09-09T11:00:09Z''\<rparr>,
    \<lparr>workerId = ''worker-1'', level = ''INFO'',
     message = ascii ''=== '' @ [0xBC30, 0xD3EC] @ ascii '' '' @ [0xC2DC, 0xC791] @ ascii '' ==='',
     timestamp = ''2025-09-09T11:00:10Z''\<rparr>,
    \<lparr>workerId = ''worker-3'', level = ''INFO'',
     message = ascii ''Docker '' @ [0xC774, 0xBBF8, 0xC9C0] @ ascii '' '' @ [0xBE4C, 0xB4DC]
               @ ascii '' '' @ [0xC911] @ ascii ''...'',
     timestamp = ''2025-09-09T11:00:12Z''\<rparr>,
    \<lparr>workerId = ''worker-3'', level = ''INFO'',
     message = [0xBC30, 0xD3EC] @ ascii '' '' @ [0xC644, 0xB8CC] @ ascii '': deploy-1757418000'',
     timestamp = ''2025-09-09T11:00:15Z''\<rparr>
  ]"

definition complete_message :: ustr where
  "complete_message =
     [0xBAA9, 0xC5C5] @ ascii '' '' @ [0xB85C, 0xADF8] @ ascii '' ''
     @ [0xC2A4, 0xD2B8, 0xB9BC, 0xC774] @ ascii '' ''
     @ [0xC644, 0xB8CC, 0xB418, 0xC5C8, 0xC2B5, 0xB2C8, 0xB2E4]"

subsection \<open>The request and its query parameters\<close>

record request =
  path :: string
  query :: "string \<rightharpoonup> string list"

text \<open>\<open>float(query.get('interval', [1000])[0]) / 1000.0\<close>\<close>

definition interval_of :: "(string \<rightharpoonup> string list) \<Rightarrow> exn + pyfloat" where
  "interval_of q =
     (case q ''interval'' of
        None \<Rightarrow> Inr (fdiv (round_double 1000) 1000)
      | Some [] \<Rightarrow> Inl IndexError
      | Some (v # _) \<Rightarrow>
          (case py_float v of Inl e \<Rightarrow> Inl e | Inr f \<Rightarrow> Inr (fdiv f 1000)))"

text \<open>\<open>int(query.get('count', [len(mock_logs)])[0])\<close>\<close>

definition requested_count :: "(string \<rightharpoonup> string list) \<Rightarrow> exn + int" where
  "requested_count q =
     (case q ''count'' of
        None \<Rightarrow> Inr (int (length mock_logs))
      | Some [] \<Rightarrow> Inl IndexError
      | Some (v # _) \<Rightarrow> py_int v)"

text \<open>\<open>min(int(...), len(mock_logs))\<close>\<close>

definition count_of :: "(string \<rightharpoonup> string list) \<Rightarrow> exn + int" where
  "count_of q =
     (case requested_count q of
        Inl e \<Rightarrow> Inl e
      | Inr n \<Rightarrow> Inr (min n (int (length mock_logs))))"

subsection \<open>The handler\<close>

definition set_cors_headers :: "state \<Rightarrow> state" where
  "set_cors_headers s =
     emit (SendHeader ''Access-Control-Allow-Headers'' ''Cache-Control'')
       (emit (SendHeader ''Access-Control-Allow-Methods'' ''GET, OPTIONS'')
         (emit (SendHeader ''Access-Control-Allow-Origin'' ''*'') s))"

definition log_frame :: "int \<Rightarrow> nat \<Rightarrow> log_entry \<Rightarrow> wire" where
  "log_frame ms i e = Frame ''log'' (LogEntry e) (str_int ms @ ''-'' @ str_nat i)"

definition complete_frame :: "int \<Rightarrow> string \<Rightarrow> int \<Rightarrow> wire" where
  "complete_frame ms ts cnt =
     Frame ''complete''
       (CompleteData \<lparr>c_message = complete_message, c_timestamp = ts, totalLogs = cnt\<rparr>)
       (str_int ms @ ''-complete'')"

text \<open>
  The body of the \<open>for\<close> loop over \<open>enumerate(mock_logs[:count])\<close>: one clock reading,
  one write, one flush, and a sleep when \<open>i < count - 1\<close>.  The first exception ends
  the loop.
\<close>

fun emit_logs :: "env \<Rightarrow> pyfloat \<Rightarrow> int \<Rightarrow> (nat \<times> log_entry) list \<Rightarrow> state
                  \<Rightarrow> exn option \<times> state" where
  "emit_logs E iv cnt [] s = (None, s)"
| "emit_logs E iv cnt ((i, e) # rest) s =
     (case wfile_write E (log_frame (clock E (nclk s)) i e) (s\<lparr>nclk := Suc (nclk s)\<rparr>) of
        (Some x, s1) \<Rightarrow> (Some x, s1)
      | (None, s1) \<Rightarrow>
          (case wfile_flush E s1 of
             (Some x, s2) \<Rightarrow> (Some x, s2)
           | (None, s2) \<Rightarrow>
               (case (if int i < cnt - 1 then time_sleep E iv s2 else (None, s2)) of
                  (Some x, s3) \<Rightarrow> (Some x, s3)
                | (None, s3) \<Rightarrow> emit_logs E iv cnt rest s3)))"

definition send_complete :: "env \<Rightarrow> int \<Rightarrow> state \<Rightarrow> exn option \<times> state" where
  "send_complete E cnt s =
     (case wfile_write E (complete_frame (clock E (nclk s)) (strftime E) cnt)
             (s\<lparr>nclk := Suc (nclk s)\<rparr>) of
        (Some x, s1) \<Rightarrow> (Some x, s1)
      | (None, s1) \<Rightarrow> wfile_flush E s1)"

text \<open>The statements inside \<open>try\<close>.\<close>

definition stream_body :: "env \<Rightarrow> pyfloat \<Rightarrow> int \<Rightarrow> state \<Rightarrow> exn option \<times> state" where
  "stream_body E iv cnt s =
     (case emit_logs E iv cnt (List.enumerate 0 (py_slice_to mock_logs cnt)) s of
        (Some x, s1) \<Rightarrow> (Some x, s1)
      | (None, s1) \<Rightarrow> send_complete E cnt s1)"

text \<open>The two \<open>except\<close> clauses: both print and swallow the exception.\<close>

definition handler_line :: "exn \<Rightarrow> console_line" where
  "handler_line x = (if x = BrokenPipeError then ClientClosed else StreamError x)"

definition stream_path :: string where
  "stream_path = ''/api/v1/log-streaming/test/mock-stream/test-task-123''"

definition health_path :: string where
  "health_path = ''/api/v1/log-streaming/health''"

definition server_name :: string where
  "server_name = ''Python Mock Server''"

definition stream_route :: "env \<Rightarrow> (string \<rightharpoonup> string list) \<Rightarrow> exn option \<times> state" where
  "stream_route E q =
     (case end_headers E
             (set_cors_headers
               (emit (SendHeader ''Connection'' ''keep-alive'')
                 (emit (SendHeader ''Cache-Control'' ''no-cache'')
                   (emit (SendHeader ''Content-Type'' ''text/event-stream'')
                     (emit (SendResponse 200) init))))) of
        (Some x, s) \<Rightarrow> (Some x, s)
      | (None, s) \<Rightarrow>
          (case interval_of q of
             Inl x \<Rightarrow> (Some x, s)
           | Inr iv \<Rightarrow>
               (case count_of q of
                  Inl x \<Rightarrow> (Some x, s)
                | Inr cnt \<Rightarrow>
                    (case stream_body E iv cnt s of
                       (Some x, s1) \<Rightarrow> (None, emit (Print (handler_line x)) s1)
                     | (None, s1) \<Rightarrow> (None, s1)))))"

definition health_route :: "env \<Rightarrow> exn option \<times> state" where
  "health_route E =
     (case end_headers E
             (set_cors_headers
               (emit (SendHeader ''Content-Type'' ''application/json'')
                 (emit (SendResponse 200) init))) of
        (Some x, s) \<Rightarrow> (Some x, s)
      | (None, s) \<Rightarrow>
          wfile_write E (Body (HealthData ''healthy'' (strftime E) 0 server_name)) s)"

definition not_found_route :: "env \<Rightarrow> string \<Rightarrow> exn option \<times> state" where
  "not_found_route E p =
     (case end_headers E
             (set_cors_headers
               (emit (SendHeader ''Content-Type'' ''application/json'')
                 (emit (SendResponse 404) init))) of
        (Some x, s) \<Rightarrow> (Some x, s)
      | (None, s) \<Rightarrow>
          wfile_write E (Body (ErrorData (''Cannot GET '' @ p) ''Not Found'' 404 server_name)) s)"

text \<open>
  \<open>do_GET\<close>: the first component of the result is the exception that leaves the
  handler, if any; the second holds the trace of the request.
\<close>

definition do_GET :: "env \<Rightarrow> request \<Rightarrow> exn option \<times> state" where
  "do_GET E rq =
     (if path rq = stream_path then stream_route E (query rq)
      else if path rq = health_path then health_route E
      else not_found_route E (path rq))"

subsection \<open>Reading a trace\<close>

definition writes :: "event list \<Rightarrow> wire list" where
  "writes tr = concat (map (\<lambda>ev. case ev of Write w \<Rightarrow> [w] | _ \<Rightarrow> []) tr)"

fun frame_name :: "wire \<Rightarrow> string" where
  "frame_name (Frame n d i) = n"
| "frame_name (Body d) = []"

fun frame_id :: "wire \<Rightarrow> string" where
  "frame_id (Frame n d i) = i"
| "frame_id (Body d) = []"

fun frame_data :: "wire \<Rightarrow> json_body" where
  "frame_data (Frame n d i) = d"
| "frame_data (Body d) = d"

definition log_frames :: "event list \<Rightarrow> wire list" where
  "log_frames tr = filter (\<lambda>w. frame_name w = ''log'') (writes tr)"

definition complete_frames :: "event list \<Rightarrow> wire list" where
  "complete_frames tr = filter (\<lambda>w. frame_name w = ''complete'') (writes tr)"

fun is_io :: "event \<Rightarrow> bool" where
  "is_io EndHeaders = True"
| "is_io (Write w) = True"
| "is_io Flush = True"
| "is_io ev = False"

text \<open>An environment in which nothing fails, for concrete runs.\<close>

definition env0 :: env where
  "env0 = \<lparr>clock = (\<lambda>n. 1757415600000 + int n), strftime = ''2025-09-09T11:00:00Z'',
           io = (\<lambda>n. None), nap = (\<lambda>n. None)\<rparr>"

text \<open>
  The events of a loop that runs to its end: for each pair \<open>(i, e)\<close> a write, a flush
  and, when \<open>i < count - 1\<close>, a sleep.  The clock is read once per frame, so the
  \<open>i\<close>-th frame carries the \<open>i\<close>-th reading.
\<close>

fun log_events :: "env \<Rightarrow> pyfloat \<Rightarrow> int \<Rightarrow> (nat \<times> log_entry) list \<Rightarrow> event list" where
  "log_events E iv cnt [] = []"
| "log_events E iv cnt ((i, e) # ps) =
     Write (log_frame (clock E i) i e) # Flush #
       (if int i < cnt - 1 then [Sleep iv] else []) @ log_events E iv cnt ps"

definition stream_headers :: "event list" where
  "stream_headers =
     [SendResponse 200,
      SendHeader ''Content-Type'' ''text/event-stream'',
      SendHeader ''Cache-Control'' ''no-cache'',
      SendHeader ''Connection'' ''keep-alive'',
      SendHeader ''Access-Control-Allow-Origin'' ''*'',
      SendHeader ''Access-Control-Allow-Methods'' ''GET, OPTIONS'',
      SendHeader ''Access-Control-Allow-Headers'' ''Cache-Control'',
      EndHeaders]"

definition attempts :: "event list \<Rightarrow> nat" where
  "attempts tr = length (filter is_io tr)"

fun total_logs :: "wire \<Rightarrow> int option" where
  "total_logs (Frame n (CompleteData d) i) = Some (totalLogs d)"
| "total_logs w = None"

text \<open>The part of a frame id after its last hyphen.\<close>

definition id_suffix :: "string \<Rightarrow> string" where
  "id_suffix s = rev (takeWhile (\<lambda>c. c \<noteq> CHR ''-'') (rev s))"

text \<open>The id suffixes of the frames handed to \<open>wfile.write\<close>, in order.\<close>

definition suffixes :: "event list \<Rightarrow> string list" where
  "suffixes tr = map (\<lambda>w. id_suffix (frame_id w)) (writes tr)"

text \<open>
  Reading a trace against the environment: the \<open>k\<close>-th operation on the connection
  recorded in a trace is the one whose outcome is \<open>io E k\<close>.
\<close>

definition all_succeeded :: "env \<Rightarrow> event list \<Rightarrow> bool" where
  "all_succeeded E tr = (\<forall>k < attempts tr. io E k = None)"

text \<open>The counter of operations agrees with the trace, and none of them failed.\<close>

definition good :: "env \<Rightarrow> state \<Rightarrow> bool" where
  "good E s = (nio s = attempts (trace s) \<and> all_succeeded E (trace s))"

text \<open>The last event is an operation on the connection that failed with \<open>x\<close>; those before it succeeded.\<close>

definition broke :: "env \<Rightarrow> exn \<Rightarrow> state \<Rightarrow> bool" where
  "broke E x s =
     (trace s \<noteq> [] \<and> is_io (last (trace s)) \<and> all_succeeded E (butlast (trace s))
      \<and> io E (attempts (butlast (trace s))) = Some x)"

text \<open>The operations made for a frame: its write and its flush.\<close>

fun is_frame_io :: "event \<Rightarrow> bool" where
  "is_frame_io (Write w) = True"
| "is_frame_io Flush = True"
| "is_frame_io ev = False"

text \<open>An environment in which the \<open>n\<close>-th operation on the connection meets a closed connection.\<close>

definition broken_at :: "nat \<Rightarrow> env" where
  "broken_at n = env0\<lparr>io := (\<lambda>k. if k = n then Some BrokenPipeError else None)\<rparr>"

text \<open>The route of the mock stream, up to the task id.\<close>

definition mock_stream_prefix :: string where
  "mock_stream_prefix = ''/api/v1/log-streaming/test/mock-stream/''"

section \<open>A stream on which nothing fails\<close>

lemma emit_logs_ok:
  assumes "\<forall>n. io E n = None"
    and "\<forall>i < length xs. int (c + i) < cnt - 1 \<longrightarrow>
           sleep_error iv = None \<and> (\<forall>n. nap E n = None)"
    and "nclk s = c"
  shows "emit_logs E iv cnt (List.enumerate c xs) s =
           (None, s\<lparr>trace := trace s @ log_events E iv cnt (List.enumerate c xs),
                    nio := nio s + 2 * length xs,
                    nclk := c + length xs\<rparr>)"
  using assms
proof (induction xs arbitrary: c s)
  case Nil
  then show ?case by simp
next
  case (Cons x xs)
  have sl: "int c < cnt - 1 \<longrightarrow> sleep_error iv = None \<and> (\<forall>n. nap E n = None)"
    using Cons.prems(2) by force
  have rest: "\<forall>i < length xs. int (Suc c + i) < cnt - 1 \<longrightarrow>
           sleep_error iv = None \<and> (\<forall>n. nap E n = None)"
    using Cons.prems(2) by force
  show ?case
    using Cons.prems(1) Cons.prems(3) sl
    by (simp add: Cons.IH [OF Cons.prems(1) rest] wfile_write_def wfile_flush_def attempt_def
        time_sleep_def emit_def)
qed

lemma stream_route_ok:
  assumes "\<forall>n. io E n = None"
    and "interval_of q = Inr iv"
    and "count_of q = Inr cnt"
    and "\<forall>i < length (py_slice_to mock_logs cnt). int i < cnt - 1 \<longrightarrow>
           sleep_error iv = None \<and> (\<forall>n. nap E n = None)"
  shows "fst (stream_route E q) = None"
    and "trace (snd (stream_route E q)) =
           stream_headers
           @ log_events E iv cnt (List.enumerate 0 (py_slice_to mock_logs cnt))
           @ [Write (complete_frame (clock E (length (py_slice_to mock_logs cnt))) (strftime E) cnt),
              Flush]"
proof -
  let ?s = "\<lparr>trace = stream_headers, nio = Suc 0, nclk = 0\<rparr>"
  have a: "\<forall>i < length (py_slice_to mock_logs cnt). int (0 + i) < cnt - 1 \<longrightarrow>
           sleep_error iv = None \<and> (\<forall>n. nap E n = None)"
    using assms(4) by simp
  have b: "nclk ?s = 0" by simp
  note el = emit_logs_ok [OF assms(1) a b]
  have hd: "end_headers E
             (set_cors_headers
               (emit (SendHeader ''Connection'' ''keep-alive'')
                 (emit (SendHeader ''Cache-Control'' ''no-cache'')
                   (emit (SendHeader ''Content-Type'' ''text/event-stream'')
                     (emit (SendResponse 200) init))))) = (None, ?s)"
    using assms(1)
    by (simp add: end_headers_def attempt_def set_cors_headers_def emit_def init_def stream_headers_def)
  show "fst (stream_route E q) = None"
    using assms(1)
    by (simp add: stream_route_def hd assms(2) assms(3) stream_body_def el send_complete_def
        wfile_write_def wfile_flush_def attempt_def)
  show "trace (snd (stream_route E q)) =
           stream_headers
           @ log_events E iv cnt (List.enumerate 0 (py_slice_to mock_logs cnt))
           @ [Write (complete_frame (clock E (length (py_slice_to mock_logs cnt))) (strftime E) cnt),
              Flush]"
    using assms(1)
    by (simp add: stream_route_def hd assms(2) assms(3) stream_body_def el send_complete_def
        wfile_write_def wfile_flush_def attempt_def)
qed

lemma writes_append: "writes (a @ b) = writes a @ writes b"
  by (simp add: writes_def)

lemma writes_headers: "writes stream_headers = []"
  by (simp add: writes_def stream_headers_def)

lemma writes_log_events:
  "writes (log_events E iv cnt ps) = map (\<lambda>(i, e). log_frame (clock E i) i e) ps"
  by (induction E iv cnt ps rule: log_events.induct) (simp_all add: writes_def)

lemma length_mock_logs: "length mock_logs = 12"
  by (simp add: mock_logs_def)

lemma frame_name_log_frame: "frame_name (log_frame ms i e) = ''log''"
  by (simp add: log_frame_def)

lemma frame_name_complete_frame: "frame_name (complete_frame ms ts cnt) = ''complete''"
  by (simp add: complete_frame_def)

lemma total_logs_log_frame: "total_logs (log_frame ms i e) = None"
  by (simp add: log_frame_def)

lemma total_logs_complete_frame: "total_logs (complete_frame ms ts cnt) = Some cnt"
  by (simp add: complete_frame_def)

lemma filter_log_frames:
  "filter (\<lambda>w. frame_name w = ''log'') (map (\<lambda>(i, e). log_frame (f i) i e) ps)
     = map (\<lambda>(i, e). log_frame (f i) i e) ps"
  by (induction ps) (auto simp: frame_name_log_frame)

lemma filter_complete_frames:
  "filter (\<lambda>w. frame_name w = ''complete'') (map (\<lambda>(i, e). log_frame (f i) i e) ps) = []"
  by (induction ps) (auto simp: frame_name_log_frame)

lemma sleeps_append: "sleeps (a @ b) = sleeps a @ sleeps b"
  by (simp add: sleeps_def)

lemma sleeps_headers: "sleeps stream_headers = []"
  by (simp add: sleeps_def stream_headers_def)

lemma sleeps_log_events_none:
  "\<forall>(i, e) \<in> set ps. \<not> int i < cnt - 1 \<Longrightarrow> sleeps (log_events E iv cnt ps) = []"
  by (induction E iv cnt ps rule: log_events.induct) (simp_all add: sleeps_def)

text \<open>What a stream on which nothing fails writes, for a clamped count \<open>cnt\<close>.\<close>

lemma stream_ok_writes:
  assumes "\<forall>n. io E n = None"
    and "interval_of q = Inr iv"
    and "count_of q = Inr cnt"
    and "\<forall>i < length (py_slice_to mock_logs cnt). int i < cnt - 1 \<longrightarrow>
           sleep_error iv = None \<and> (\<forall>n. nap E n = None)"
  shows "writes (trace (snd (do_GET E \<lparr>path = stream_path, query = q\<rparr>))) =
           map (\<lambda>(i, e). log_frame (clock E i) i e) (List.enumerate 0 (py_slice_to mock_logs cnt))
           @ [complete_frame (clock E (length (py_slice_to mock_logs cnt))) (strftime E) cnt]"
    and "fst (do_GET E \<lparr>path = stream_path, query = q\<rparr>) = None"
proof -
  have d: "do_GET E \<lparr>path = stream_path, query = q\<rparr> = stream_route E q"
    by (simp add: do_GET_def)
  show "writes (trace (snd (do_GET E \<lparr>path = stream_path, query = q\<rparr>))) =
           map (\<lambda>(i, e). log_frame (clock E i) i e) (List.enumerate 0 (py_slice_to mock_logs cnt))
           @ [complete_frame (clock E (length (py_slice_to mock_logs cnt))) (strftime E) cnt]"
    unfolding d stream_route_ok(2) [OF assms]
    by (simp add: writes_append writes_headers writes_log_events) (simp add: writes_def)
  show "fst (do_GET E \<lparr>path = stream_path, query = q\<rparr>) = None"
    unfolding d by (rule stream_route_ok(1) [OF assms])
qed

lemma count_of_requested:
  "requested_count q = Inr n \<Longrightarrow> count_of q = Inr (min n 12)"
  by (simp add: count_of_def length_mock_logs)

subsection \<open>Concrete parameters\<close>

lemma py_int_eval:
  "py_int ''3'' = Inr 3" "py_int ''-3'' = Inr (- 3)" "py_int ''999'' = Inr 999"
  "py_int ''abc'' = Inl ValueError" "py_int ''0'' = Inr 0"
  by (simp_all add: py_int_def strip_def split_sign_def is_space_def is_digit_def
      digits_value_def digit_val_def)

lemma ilog2_eq: "2 ^ k \<le> n \<Longrightarrow> n < 2 ^ Suc k \<Longrightarrow> ilog2 n = int k"
proof (induction k arbitrary: n)
  case 0
  then show ?case by (simp add: ilog2.simps [of n])
next
  case (Suc k)
  have "2 ^ k \<le> n div 2" and "n div 2 < 2 ^ Suc k"
    using Suc.prems by auto
  then have "ilog2 (n div 2) = int k"
    by (rule Suc.IH)
  moreover have "\<not> n < 2"
  proof -
    have "(2::int) \<le> 2 ^ Suc k"
      by simp
    then show ?thesis
      using Suc.prems(1) by linarith
  qed
  ultimately show ?case
    by (simp add: ilog2.simps [of n])
qed

lemma signed_double_small: "r < 2 ^ 64 \<Longrightarrow> signed_double neg r = Finite (if neg then - r else r)"
proof -
  assume a: "r < 2 ^ 64"
  have "(2::rat) ^ 64 \<le> 2 ^ 1024"
    by (rule power_increasing) simp_all
  then have "\<not> pow2 1024 \<le> r"
    using a by (simp add: pow2_def)
  then show ?thesis
    by (simp add: signed_double_def)
qed

lemma ilog2_1: "ilog2 1 = 0"
  by (simp add: ilog2.simps [of 1])

lemma binade_1: "binade 1 = 0"
  by (simp add: binade_def ilog2_1 pow2_def)

lemma binade_1000: "binade 1000 = 9"
proof -
  have "ilog2 1000 = int 9"
    by (rule ilog2_eq) simp_all
  then show ?thesis
    by (simp add: binade_def ilog2_1 pow2_def)
qed

lemma binade_1e9: "binade 1000000000 = 29"
proof -
  have "ilog2 1000000000 = int 29"
    by (rule ilog2_eq) simp_all
  then show ?thesis
    by (simp add: binade_def ilog2_1 pow2_def)
qed

lemma ulp_1: "round_to_ulp 1 (- 52) = 1"
  by code_simp

lemma ulp_1000: "round_to_ulp 1000 (- 43) = 1000"
  by code_simp

lemma ulp_1e9: "round_to_ulp 1000000000 (- 23) = 1000000000"
  by code_simp

lemma round_double_1: "round_double 1 = Finite 1"
  by (simp add: round_double_def binade_1 ulp_1 signed_double_small)

lemma round_double_1000: "round_double 1000 = Finite 1000"
  by (simp add: round_double_def binade_1000 ulp_1000 signed_double_small)

lemma round_double_1e9: "round_double 1000000000 = Finite 1000000000"
  by (simp add: round_double_def binade_1e9 ulp_1e9 signed_double_small)

lemma interval_default: "interval_of [''count'' \<mapsto> v] = Inr (Finite 1)"
  by (simp add: interval_of_def fdiv_def round_double_1000 round_double_1)

lemma interval_empty: "interval_of Map.empty = Inr (Finite 1)"
  by (simp add: interval_of_def fdiv_def round_double_1000 round_double_1)

lemma sleep_one_second: "sleep_error (Finite 1) = None"
proof -
  have "round_double (1 * 10 ^ 9) = Finite 1000000000"
    using round_double_1e9 by simp
  then show ?thesis
    by (simp add: sleep_error_def)
qed

lemma io_env0: "\<forall>n. io env0 n = None"
  by (simp add: env0_def)

lemma nap_env0: "\<forall>n. nap env0 n = None"
  by (simp add: env0_def)

section \<open>Streams of a valid count\<close>

lemma frame_data_log_frames:
  "map frame_data (map (\<lambda>(i, e). log_frame (f i) i e) (List.enumerate c xs)) = map LogEntry xs"
  by (induction xs arbitrary: c) (simp_all add: log_frame_def)

text \<open>
  C1: for every \<open>k\<close> with \<open>1 \<le> k \<le> 12\<close>, a GET to the mock-stream route whose
  \<open>count\<close> parameter reads \<open>k\<close> returns normally and writes exactly \<open>k\<close> frames
  named \<open>log\<close>, whose payloads are the first \<open>k\<close> catalogue entries in catalogue
  order, then exactly one frame named \<open>complete\<close>, and nothing after it.  The interval
  is one that parses and that \<open>time.sleep\<close> accepts, and neither an operation on the
  connection nor a suspension fails.
\<close>

theorem count_k_emits_k_logs_then_complete:
  assumes "1 \<le> k" and "k \<le> 12"
    and "requested_count q = Inr k"
    and "interval_of q = Inr iv" and "sleep_error iv = None"
    and "\<forall>n. io E n = None" and "\<forall>n. nap E n = None"
  shows "fst (do_GET E \<lparr>path = stream_path, query = q\<rparr>) = None
       \<and> writes (trace (snd (do_GET E \<lparr>path = stream_path, query = q\<rparr>))) =
           map (\<lambda>(i, e). Frame ''log'' (LogEntry e) (str_int (clock E i) @ ''-'' @ str_nat i))
             (List.enumerate 0 (take (nat k) mock_logs))
           @ [Frame ''complete''
                (CompleteData \<lparr>c_message = complete_message, c_timestamp = strftime E,
                               totalLogs = k\<rparr>)
                (str_int (clock E (nat k)) @ ''-complete'')]
       \<and> map frame_data (log_frames (trace (snd (do_GET E \<lparr>path = stream_path, query = q\<rparr>))))
           = map LogEntry (take (nat k) mock_logs)
       \<and> length (log_frames (trace (snd (do_GET E \<lparr>path = stream_path, query = q\<rparr>)))) = nat k
       \<and> length (complete_frames (trace (snd (do_GET E \<lparr>path = stream_path, query = q\<rparr>)))) = 1"
proof -
  have c: "count_of q = Inr k"
    using count_of_requested [OF assms(3)] assms(2) by simp
  have sl: "py_slice_to mock_logs k = take (nat k) mock_logs"
    using assms(1) by (simp add: py_slice_to_def)
  have len: "length (take (nat k) mock_logs) = nat k"
    using assms(1) assms(2) by (simp add: length_mock_logs)
  have s: "\<forall>i < length (py_slice_to mock_logs k). int i < k - 1 \<longrightarrow>
             sleep_error iv = None \<and> (\<forall>n. nap E n = None)"
    using assms(5) assms(7) by simp
  note w = stream_ok_writes [OF assms(6) assms(4) c s]
  have 1: "fst (do_GET E \<lparr>path = stream_path, query = q\<rparr>) = None"
    by (rule w(2))
  have 2: "writes (trace (snd (do_GET E \<lparr>path = stream_path, query = q\<rparr>))) =
           map (\<lambda>(i, e). Frame ''log'' (LogEntry e) (str_int (clock E i) @ ''-'' @ str_nat i))
             (List.enumerate 0 (take (nat k) mock_logs))
           @ [Frame ''complete''
                (CompleteData \<lparr>c_message = complete_message, c_timestamp = strftime E,
                               totalLogs = k\<rparr>)
                (str_int (clock E (nat k)) @ ''-complete'')]"
    using len by (simp add: w(1) sl log_frame_def complete_frame_def)
  have lf: "log_frames (trace (snd (do_GET E \<lparr>path = stream_path, query = q\<rparr>)))
      = map (\<lambda>(i, e). log_frame (clock E i) i e) (List.enumerate 0 (take (nat k) mock_logs))"
    by (simp add: w(1) sl log_frames_def filter_log_frames frame_name_complete_frame)
  have 3: "map frame_data (log_frames (trace (snd (do_GET E \<lparr>path = stream_path, query = q\<rparr>))))
           = map LogEntry (take (nat k) mock_logs)"
    unfolding lf by (rule frame_data_log_frames)
  have 4: "length (log_frames (trace (snd (do_GET E \<lparr>path = stream_path, query = q\<rparr>)))) = nat k"
    using len by (simp add: lf)
  have 5: "length (complete_frames (trace (snd (do_GET E \<lparr>path = stream_path, query = q\<rparr>)))) = 1"
    by (simp add: w(1) complete_frames_def filter_complete_frames frame_name_complete_frame)
  show ?thesis
    by (intro conjI 1 2 3 4 5)
qed

theorem count_k_emits_k_logs_then_complete_witness:
  "(1::int) \<le> 3 \<and> (3::int) \<le> 12
   \<and> requested_count [''count'' \<mapsto> [''3'']] = Inr 3
   \<and> interval_of [''count'' \<mapsto> [''3'']] = Inr (Finite 1)
   \<and> sleep_error (Finite 1) = None
   \<and> (\<forall>n. io env0 n = None) \<and> (\<forall>n. nap env0 n = None)
   \<and> fst (do_GET env0 \<lparr>path = stream_path, query = [''count'' \<mapsto> [''3'']]\<rparr>) = None
   \<and> map frame_name
         (writes (trace (snd (do_GET env0 \<lparr>path = stream_path, query = [''count'' \<mapsto> [''3'']]\<rparr>))))
       = [''log'', ''log'', ''log'', ''complete'']
   \<and> map frame_data (log_frames
         (trace (snd (do_GET env0 \<lparr>path = stream_path, query = [''count'' \<mapsto> [''3'']]\<rparr>))))
       = [LogEntry (mock_logs ! 0), LogEntry (mock_logs ! 1), LogEntry (mock_logs ! 2)]
   \<and> length (log_frames
         (trace (snd (do_GET env0 \<lparr>path = stream_path, query = [''count'' \<mapsto> [''3'']]\<rparr>)))) = 3"
proof -
  have r: "requested_count [''count'' \<mapsto> [''3'']] = Inr 3"
    by (simp add: requested_count_def py_int_eval)
  note t = count_k_emits_k_logs_then_complete
    [OF _ _ r interval_default sleep_one_second io_env0 nap_env0]
  show ?thesis
    using t
    by (simp add: r interval_default sleep_one_second io_env0 nap_env0 mock_logs_def)
qed

text \<open>
  C6: for every requested count greater than the catalogue length (for instance 999),
  the stream writes exactly the 12 catalogue entries as \<open>log\<close> frames, and the
  completion frame reports 12.  The interval is one that parses and that \<open>time.sleep\<close>
  accepts, and neither an operation on the connection nor a suspension fails.
\<close>

theorem count_above_catalogue_is_clamped:
  assumes "12 < n"
    and "requested_count q = Inr n"
    and "interval_of q = Inr iv" and "sleep_error iv = None"
    and "\<forall>k. io E k = None" and "\<forall>k. nap E k = None"
  shows "fst (do_GET E \<lparr>path = stream_path, query = q\<rparr>) = None
       \<and> writes (trace (snd (do_GET E \<lparr>path = stream_path, query = q\<rparr>))) =
           map (\<lambda>(i, e). Frame ''log'' (LogEntry e) (str_int (clock E i) @ ''-'' @ str_nat i))
             (List.enumerate 0 mock_logs)
           @ [Frame ''complete''
                (CompleteData \<lparr>c_message = complete_message, c_timestamp = strftime E,
                               totalLogs = 12\<rparr>)
                (str_int (clock E 12) @ ''-complete'')]
       \<and> map frame_data (log_frames (trace (snd (do_GET E \<lparr>path = stream_path, query = q\<rparr>))))
           = map LogEntry mock_logs
       \<and> length (log_frames (trace (snd (do_GET E \<lparr>path = stream_path, query = q\<rparr>)))) = 12"
proof -
  have c: "count_of q = Inr 12"
    using count_of_requested [OF assms(2)] assms(1) by simp
  have sl: "py_slice_to mock_logs 12 = mock_logs"
    by (simp add: py_slice_to_def length_mock_logs)
  have s: "\<forall>i < length (py_slice_to mock_logs 12). int i < 12 - 1 \<longrightarrow>
             sleep_error iv = None \<and> (\<forall>n. nap E n = None)"
    using assms(4) assms(6) by simp
  note w = stream_ok_writes [OF assms(5) assms(3) c s]
  have 1: "fst (do_GET E \<lparr>path = stream_path, query = q\<rparr>) = None"
    by (rule w(2))
  have 2: "writes (trace (snd (do_GET E \<lparr>path = stream_path, query = q\<rparr>))) =
           map (\<lambda>(i, e). Frame ''log'' (LogEntry e) (str_int (clock E i) @ ''-'' @ str_nat i))
             (List.enumerate 0 mock_logs)
           @ [Frame ''complete''
                (CompleteData \<lparr>c_message = complete_message, c_timestamp = strftime E,
                               totalLogs = 12\<rparr>)
                (str_int (clock E 12) @ ''-complete'')]"
    by (simp add: w(1) sl log_frame_def complete_frame_def length_mock_logs)
  have lf: "log_frames (trace (snd (do_GET E \<lparr>path = stream_path, query = q\<rparr>)))
      = map (\<lambda>(i, e). log_frame (clock E i) i e) (List.enumerate 0 mock_logs)"
    by (simp add: w(1) sl log_frames_def filter_log_frames frame_name_complete_frame)
  have 3: "map frame_data (log_frames (trace (snd (do_GET E \<lparr>path = stream_path, query = q\<rparr>))))
           = map LogEntry mock_logs"
    unfolding lf by (rule frame_data_log_frames)
  have 4: "length (log_frames (trace (snd (do_GET E \<lparr>path = stream_path, query = q\<rparr>)))) = 12"
    by (simp add: lf length_mock_logs)
  show ?thesis
    by (intro conjI 1 2 3 4)
qed

theorem count_above_catalogue_is_clamped_witness:
  "(12::int) < 999
   \<and> requested_count [''count'' \<mapsto> [''999'']] = Inr 999
   \<and> interval_of [''count'' \<mapsto> [''999'']] = Inr (Finite 1)
   \<and> sleep_error (Finite 1) = None
   \<and> (\<forall>k. io env0 k = None) \<and> (\<forall>k. nap env0 k = None)
   \<and> length (log_frames
         (trace (snd (do_GET env0 \<lparr>path = stream_path, query = [''count'' \<mapsto> [''999'']]\<rparr>)))) = 12
   \<and> map frame_data (log_frames
         (trace (snd (do_GET env0 \<lparr>path = stream_path, query = [''count'' \<mapsto> [''999'']]\<rparr>))))
       = map LogEntry mock_logs
   \<and> map total_logs (complete_frames
         (trace (snd (do_GET env0 \<lparr>path = stream_path, query = [''count'' \<mapsto> [''999'']]\<rparr>))))
       = [Some 12]"
proof -
  have r: "requested_count [''count'' \<mapsto> [''999'']] = Inr 999"
    by (simp add: requested_count_def py_int_eval)
  note t = count_above_catalogue_is_clamped
    [OF _ r interval_default sleep_one_second io_env0 nap_env0]
  have c: "count_of [''count'' \<mapsto> [''999'']] = Inr 12"
    using count_of_requested [OF r] by simp
  have s: "\<forall>i < length (py_slice_to mock_logs 12). int i < 12 - 1 \<longrightarrow>
             sleep_error (Finite 1) = None \<and> (\<forall>n. nap env0 n = None)"
    by (simp add: sleep_one_second nap_env0)
  have tl: "map total_logs (complete_frames
         (trace (snd (do_GET env0 \<lparr>path = stream_path, query = [''count'' \<mapsto> [''999'']]\<rparr>))))
       = [Some 12]"
    by (simp add: stream_ok_writes(1) [OF io_env0 interval_default c s] complete_frames_def
        filter_complete_frames frame_name_complete_frame total_logs_complete_frame)
  show ?thesis
    using t tl
    by (simp add: r interval_default sleep_one_second io_env0 nap_env0)
qed

section \<open>Negative counts\<close>

text \<open>
  C10: for every requested count \<open>c\<close> with \<open>-12 < c < 0\<close> the stream writes exactly
  \<open>12 + c\<close> frames named \<open>log\<close>, whose payloads are the catalogue without its last
  \<open>|c|\<close> entries, and then one frame named \<open>complete\<close> whose \<open>totalLogs\<close> is the
  negative value \<open>c\<close>.  No operation on the connection fails; no sleep is reached, so
  the interval only has to parse.
\<close>

theorem negative_count_slices_from_the_end:
  assumes "- 12 < c" and "c < 0"
    and "requested_count q = Inr c"
    and "interval_of q = Inr iv"
    and "\<forall>k. io E k = None"
  shows "fst (do_GET E \<lparr>path = stream_path, query = q\<rparr>) = None
       \<and> writes (trace (snd (do_GET E \<lparr>path = stream_path, query = q\<rparr>))) =
           map (\<lambda>(i, e). Frame ''log'' (LogEntry e) (str_int (clock E i) @ ''-'' @ str_nat i))
             (List.enumerate 0 (take (nat (12 + c)) mock_logs))
           @ [Frame ''complete''
                (CompleteData \<lparr>c_message = complete_message, c_timestamp = strftime E,
                               totalLogs = c\<rparr>)
                (str_int (clock E (nat (12 + c))) @ ''-complete'')]
       \<and> map frame_data (log_frames (trace (snd (do_GET E \<lparr>path = stream_path, query = q\<rparr>))))
           = map LogEntry (rev (drop (nat (- c)) (rev mock_logs)))
       \<and> length (log_frames (trace (snd (do_GET E \<lparr>path = stream_path, query = q\<rparr>))))
           = nat (12 + c)
       \<and> map total_logs
           (complete_frames (trace (snd (do_GET E \<lparr>path = stream_path, query = q\<rparr>))))
           = [Some c]"
proof -
  have c: "count_of q = Inr c"
    using count_of_requested [OF assms(3)] assms(2) by simp
  have sl: "py_slice_to mock_logs c = take (nat (12 + c)) mock_logs"
    using assms(1) assms(2) by (simp add: py_slice_to_def length_mock_logs)
  have len: "length (take (nat (12 + c)) mock_logs) = nat (12 + c)"
    using assms(1) assms(2) by (simp add: length_mock_logs)
  have butlast: "rev (drop (nat (- c)) (rev mock_logs)) = take (nat (12 + c)) mock_logs"
  proof -
    have "12 - nat (- c) = nat (12 + c)"
      using assms(1) assms(2) by simp
    then show ?thesis
      by (simp add: rev_drop length_mock_logs)
  qed
  have s: "\<forall>i < length (py_slice_to mock_logs c). int i < c - 1 \<longrightarrow>
             sleep_error iv = None \<and> (\<forall>n. nap E n = None)"
    using assms(2) by simp
  note w = stream_ok_writes [OF assms(5) assms(4) c s]
  have 1: "fst (do_GET E \<lparr>path = stream_path, query = q\<rparr>) = None"
    by (rule w(2))
  have 2: "writes (trace (snd (do_GET E \<lparr>path = stream_path, query = q\<rparr>))) =
           map (\<lambda>(i, e). Frame ''log'' (LogEntry e) (str_int (clock E i) @ ''-'' @ str_nat i))
             (List.enumerate 0 (take (nat (12 + c)) mock_logs))
           @ [Frame ''complete''
                (CompleteData \<lparr>c_message = complete_message, c_timestamp = strftime E,
                               totalLogs = c\<rparr>)
                (str_int (clock E (nat (12 + c))) @ ''-complete'')]"
    using len by (simp add: w(1) sl log_frame_def complete_frame_def)
  have lf: "log_frames (trace (snd (do_GET E \<lparr>path = stream_path, query = q\<rparr>)))
      = map (\<lambda>(i, e). log_frame (clock E i) i e)
          (List.enumerate 0 (take (nat (12 + c)) mock_logs))"
    by (simp add: w(1) sl log_frames_def filter_log_frames frame_name_complete_frame)
  have 3: "map frame_data (log_frames (trace (snd (do_GET E \<lparr>path = stream_path, query = q\<rparr>))))
           = map LogEntry (rev (drop (nat (- c)) (rev mock_logs)))"
    unfolding lf butlast by (rule frame_data_log_frames)
  have 4: "length (log_frames (trace (snd (do_GET E \<lparr>path = stream_path, query = q\<rparr>))))
           = nat (12 + c)"
    using len by (simp add: lf)
  have 5: "map total_logs
           (complete_frames (trace (snd (do_GET E \<lparr>path = stream_path, query = q\<rparr>))))
           = [Some c]"
    by (simp add: w(1) sl complete_frames_def filter_complete_frames frame_name_complete_frame
        total_logs_complete_frame)
  show ?thesis
    by (intro conjI 1 2 3 4 5)
qed

theorem negative_count_slices_from_the_end_witness:
  "(- 12::int) < - 3 \<and> (- 3::int) < 0
   \<and> requested_count [''count'' \<mapsto> [''-3'']] = Inr (- 3)
   \<and> interval_of [''count'' \<mapsto> [''-3'']] = Inr (Finite 1)
   \<and> (\<forall>k. io env0 k = None)
   \<and> length (log_frames
         (trace (snd (do_GET env0 \<lparr>path = stream_path, query = [''count'' \<mapsto> [''-3'']]\<rparr>)))) = 9
   \<and> map frame_data (log_frames
         (trace (snd (do_GET env0 \<lparr>path = stream_path, query = [''count'' \<mapsto> [''-3'']]\<rparr>))))
       = map LogEntry (take 9 mock_logs)
   \<and> map total_logs (complete_frames
         (trace (snd (do_GET env0 \<lparr>path = stream_path, query = [''count'' \<mapsto> [''-3'']]\<rparr>))))
       = [Some (- 3)]"
proof -
  have r: "requested_count [''count'' \<mapsto> [''-3'']] = Inr (- 3)"
    by (simp add: requested_count_def py_int_eval)
  note t = negative_count_slices_from_the_end [OF _ _ r interval_default io_env0]
  have b: "rev (drop 3 (rev mock_logs)) = take 9 mock_logs"
    by (simp add: rev_drop length_mock_logs)
  show ?thesis
    using t
    by (simp add: r interval_default io_env0 b)
qed

section \<open>Frame ids\<close>

lemma digit_char_digit: "d < 10 \<Longrightarrow> is_digit (digit_char d)"
  by (simp add: is_digit_def digit_char_def)

lemma digit_val_digit_char: "d < 10 \<Longrightarrow> digit_val (digit_char d) = d"
  by (simp add: digit_val_def digit_char_def)

lemma str_nat_digits: "c \<in> set (str_nat n) \<Longrightarrow> is_digit c"
proof (induction n arbitrary: c rule: str_nat.induct)
  case (1 n)
  show ?case
  proof (cases "n < 10")
    case True
    with "1.prems" show ?thesis
      by (simp add: str_nat.simps [of n] digit_char_digit)
  next
    case False
    with "1.prems" "1.IH" show ?thesis
      by (auto simp: str_nat.simps [of n] digit_char_digit)
  qed
qed

lemma filter_digits_str_nat: "filter is_digit (str_nat n) = str_nat n"
  by (simp add: str_nat_digits)

lemma digits_value_str_nat: "digits_value (str_nat n) = n"
proof (induction n rule: str_nat.induct)
  case (1 n)
  show ?case
  proof (cases "n < 10")
    case True
    then show ?thesis
      by (simp add: str_nat.simps [of n] digits_value_def digit_char_digit digit_val_digit_char)
  next
    case False
    have "digits_value (str_nat n)
            = 10 * digits_value (str_nat (n div 10)) + digit_val (digit_char (n mod 10))"
      using False
      by (simp add: str_nat.simps [of n] digits_value_def digit_char_digit filter_digits_str_nat)
    then show ?thesis
      using False "1.IH" by (simp add: digit_val_digit_char)
  qed
qed

lemma inj_str_nat: "inj str_nat"
  by (rule inj_on_inverseI [where g = digits_value]) (rule digits_value_str_nat)

lemma not_digit_hyphen: "\<not> is_digit CHR ''-''"
  by (simp add: is_digit_def)

lemma id_suffix_hyphen:
  assumes "CHR ''-'' \<notin> set b"
  shows "id_suffix (a @ CHR ''-'' # b) = b"
proof -
  have "takeWhile (\<lambda>c. c \<noteq> CHR ''-'') (rev b @ CHR ''-'' # rev a) = rev b"
    using assms by (auto simp: takeWhile_tail)
  then show ?thesis
    by (simp add: id_suffix_def)
qed

lemma id_suffix_log_frame: "id_suffix (frame_id (log_frame ms i e)) = str_nat i"
proof -
  have "CHR ''-'' \<notin> set (str_nat i)"
    using str_nat_digits not_digit_hyphen by blast
  then show ?thesis
    by (simp add: log_frame_def id_suffix_hyphen)
qed

lemma id_suffix_complete_frame: "id_suffix (frame_id (complete_frame ms ts cnt)) = ''complete''"
proof -
  have "id_suffix (str_int ms @ CHR ''-'' # ''complete'') = ''complete''"
    by (rule id_suffix_hyphen) simp
  then show ?thesis
    by (simp add: complete_frame_def)
qed

lemma complete_not_str_nat: "''complete'' \<noteq> str_nat n"
proof
  assume "''complete'' = str_nat n"
  then have "CHR ''c'' \<in> set (str_nat n)"
    by (metis list.set_intros(1))
  then have "is_digit CHR ''c''"
    by (rule str_nat_digits)
  then show False
    by (simp add: is_digit_def)
qed

lemma suffixes_append: "suffixes (a @ b) = suffixes a @ suffixes b"
  by (simp add: suffixes_def writes_def)

lemma suffixes_simps:
  "suffixes [] = []"
  "suffixes (Write w # tr) = id_suffix (frame_id w) # suffixes tr"
  "suffixes (Flush # tr) = suffixes tr"
  "suffixes (Sleep x # tr) = suffixes tr"
  "suffixes (Print l # tr) = suffixes tr"
  "suffixes (EndHeaders # tr) = suffixes tr"
  "suffixes (SendHeader k v # tr) = suffixes tr"
  "suffixes (SendResponse n # tr) = suffixes tr"
  by (simp_all add: suffixes_def writes_def)

lemma emit_logs_suffixes:
  "\<exists>m. suffixes (trace (snd (emit_logs E iv cnt (List.enumerate c xs) s)))
         = suffixes (trace s) @ map str_nat [c..<c + m]"
proof (induction xs arbitrary: c s)
  case Nil
  have "suffixes (trace s) = suffixes (trace s) @ map str_nat [c..<c + 0]"
    by simp
  then show ?case
    by (metis emit_logs.simps(1) enumerate_simps(1) snd_conv)
next
  case (Cons x xs)
  let ?s1 = "s\<lparr>nclk := Suc (nclk s),
               trace := trace s @ [Write (log_frame (clock E (nclk s)) c x)],
               nio := Suc (nio s)\<rparr>"
  let ?s2 = "?s1\<lparr>trace := trace ?s1 @ [Flush], nio := Suc (nio ?s1)\<rparr>"
  let ?s3 = "?s2\<lparr>trace := trace ?s2 @ [Sleep iv]\<rparr>"
  have one: "[c..<c + 1] = [c]"
    by simp
  have more: "\<And>m. [c..<c + Suc m] = c # [Suc c..<Suc c + m]"
    by (simp add: upt_conv_Cons)
  have s1: "suffixes (trace ?s1) = suffixes (trace s) @ map str_nat [c..<c + 1]"
    by (simp add: suffixes_append suffixes_simps id_suffix_log_frame)
  have s2: "suffixes (trace ?s2) = suffixes (trace s) @ map str_nat [c..<c + 1]"
    by (simp add: suffixes_append suffixes_simps id_suffix_log_frame)
  have s3: "suffixes (trace ?s3) = suffixes (trace s) @ map str_nat [c..<c + 1]"
    by (simp add: suffixes_append suffixes_simps id_suffix_log_frame)
  from Cons.IH [of "Suc c" ?s2] obtain m2 where
    r2: "suffixes (trace (snd (emit_logs E iv cnt (List.enumerate (Suc c) xs) ?s2)))
           = suffixes (trace ?s2) @ map str_nat [Suc c..<Suc c + m2]"
    by blast
  from Cons.IH [of "Suc c" ?s3] obtain m3 where
    r3: "suffixes (trace (snd (emit_logs E iv cnt (List.enumerate (Suc c) xs) ?s3)))
           = suffixes (trace ?s3) @ map str_nat [Suc c..<Suc c + m3]"
    by blast
  have r2': "suffixes (trace (snd (emit_logs E iv cnt (List.enumerate (Suc c) xs) ?s2)))
           = suffixes (trace s) @ map str_nat [c..<c + Suc m2]"
    unfolding r2 s2 more by simp
  have r3': "suffixes (trace (snd (emit_logs E iv cnt (List.enumerate (Suc c) xs) ?s3)))
           = suffixes (trace s) @ map str_nat [c..<c + Suc m3]"
    unfolding r3 s3 more by simp
  have shape: "snd (emit_logs E iv cnt (List.enumerate c (x # xs)) s) = ?s1
      \<or> snd (emit_logs E iv cnt (List.enumerate c (x # xs)) s) = ?s2
      \<or> snd (emit_logs E iv cnt (List.enumerate c (x # xs)) s) = ?s3
      \<or> snd (emit_logs E iv cnt (List.enumerate c (x # xs)) s)
          = snd (emit_logs E iv cnt (List.enumerate (Suc c) xs) ?s2)
      \<or> snd (emit_logs E iv cnt (List.enumerate c (x # xs)) s)
          = snd (emit_logs E iv cnt (List.enumerate (Suc c) xs) ?s3)"
    by (simp add: wfile_write_def wfile_flush_def attempt_def time_sleep_def emit_def
        split: option.splits)
  then show ?case
    using s1 s2 s3 r2' r3' by metis
qed

lemma send_complete_suffixes:
  "suffixes (trace (snd (send_complete E cnt s))) = suffixes (trace s) @ [''complete'']"
  by (simp add: send_complete_def wfile_write_def wfile_flush_def attempt_def
      suffixes_append suffixes_simps id_suffix_complete_frame split: option.splits)

lemma stream_body_suffixes:
  "\<exists>m. suffixes (trace (snd (stream_body E iv cnt s))) = suffixes (trace s) @ map str_nat [0..<m]
      \<or> suffixes (trace (snd (stream_body E iv cnt s)))
          = suffixes (trace s) @ map str_nat [0..<m] @ [''complete'']"
proof -
  obtain m where m: "suffixes (trace (snd (emit_logs E iv cnt
        (List.enumerate 0 (py_slice_to mock_logs cnt)) s)))
      = suffixes (trace s) @ map str_nat [0..<0 + m]"
    using emit_logs_suffixes by blast
  obtain r s1 where e: "emit_logs E iv cnt (List.enumerate 0 (py_slice_to mock_logs cnt)) s = (r, s1)"
    by (cases "emit_logs E iv cnt (List.enumerate 0 (py_slice_to mock_logs cnt)) s")
  show ?thesis
  proof (cases r)
    case None
    then have "suffixes (trace (snd (stream_body E iv cnt s)))
        = suffixes (trace s) @ map str_nat [0..<m] @ [''complete'']"
      using m e by (simp add: stream_body_def send_complete_suffixes)
    then show ?thesis by blast
  next
    case (Some x)
    then have "suffixes (trace (snd (stream_body E iv cnt s)))
        = suffixes (trace s) @ map str_nat [0..<m]"
      using m e by (simp add: stream_body_def)
    then show ?thesis by blast
  qed
qed

lemma stream_route_suffixes:
  "\<exists>m. suffixes (trace (snd (stream_route E q))) = map str_nat [0..<m]
      \<or> suffixes (trace (snd (stream_route E q))) = map str_nat [0..<m] @ [''complete'']"
proof -
  let ?h = "set_cors_headers
               (emit (SendHeader ''Connection'' ''keep-alive'')
                 (emit (SendHeader ''Cache-Control'' ''no-cache'')
                   (emit (SendHeader ''Content-Type'' ''text/event-stream'')
                     (emit (SendResponse 200) init))))"
  obtain r s where h: "end_headers E ?h = (r, s)"
    by (cases "end_headers E ?h")
  have hs: "suffixes (trace s) = []"
    using h
    by (auto simp: end_headers_def attempt_def set_cors_headers_def emit_def init_def
        suffixes_simps)
  have zero: "suffixes (trace s) = map str_nat [0..<0]"
    using hs by simp
  show ?thesis
  proof (cases r)
    case (Some x)
    then show ?thesis
      using h zero by (auto simp: stream_route_def)
  next
    case None
    show ?thesis
    proof (cases "interval_of q")
      case (Inl x)
      then show ?thesis
        using h None zero by (auto simp: stream_route_def)
    next
      case (Inr iv)
      show ?thesis
      proof (cases "count_of q")
        case (Inl x)
        then show ?thesis
          using h None Inr zero by (auto simp: stream_route_def)
      next
        case cnt: (Inr cnt)
        obtain r1 s1 where b: "stream_body E iv cnt s = (r1, s1)"
          by (cases "stream_body E iv cnt s")
        have fin: "suffixes (trace (snd (stream_route E q))) = suffixes (trace s1)"
          using h None Inr cnt b
          by (cases r1) (simp_all add: stream_route_def emit_def suffixes_append suffixes_simps)
        from stream_body_suffixes [of E iv cnt s] b hs
        have "\<exists>m. suffixes (trace s1) = map str_nat [0..<m]
                \<or> suffixes (trace s1) = map str_nat [0..<m] @ [''complete'']"
          by simp
        then show ?thesis
          using fin by simp
      qed
    qed
  qed
qed

lemma distinct_str_nats: "distinct (map str_nat [0..<m])"
  by (simp add: distinct_map inj_on_subset [OF inj_str_nat])

lemma distinct_str_nats_complete: "distinct (map str_nat [0..<m] @ [''complete''])"
  using complete_not_str_nat by (auto simp: distinct_str_nats)

lemma do_GET_suffixes_distinct: "distinct (suffixes (trace (snd (do_GET E rq))))"
proof -
  have other: "suffixes (trace (snd (health_route E))) = [] \<or>
      (\<exists>u. suffixes (trace (snd (health_route E))) = [u])"
    by (simp add: health_route_def end_headers_def wfile_write_def attempt_def
        set_cors_headers_def emit_def init_def suffixes_simps split: option.splits)
  have nf: "suffixes (trace (snd (not_found_route E (path rq)))) = [] \<or>
      (\<exists>u. suffixes (trace (snd (not_found_route E (path rq)))) = [u])"
    by (simp add: not_found_route_def end_headers_def wfile_write_def attempt_def
        set_cors_headers_def emit_def init_def suffixes_simps split: option.splits)
  show ?thesis
    using stream_route_suffixes [of E "query rq"] other nf
      distinct_str_nats distinct_str_nats_complete
    by (auto simp: do_GET_def)
qed

lemma digit_chars:
  "digit_char 0 = CHR ''0''" "digit_char 1 = CHR ''1''" "digit_char 2 = CHR ''2''"
  "digit_char 3 = CHR ''3''" "digit_char 4 = CHR ''4''" "digit_char 5 = CHR ''5''"
  "digit_char 6 = CHR ''6''" "digit_char 7 = CHR ''7''" "digit_char 8 = CHR ''8''"
  "digit_char 9 = CHR ''9''"
  "digit_char (Suc 0) = CHR ''1''" "digit_char (Suc (Suc 0)) = CHR ''2''"
  by code_simp+

lemma distinct_under_map: "distinct (map f ys) \<Longrightarrow> distinct ys"
  by (simp add: distinct_map)

text \<open>
  C7: within a single request, the id strings of all frames handed to the connection
  (every \<open>log\<close> frame and the \<open>complete\<close> frame) are pairwise distinct, whatever
  values the clock returns and whatever fails on the way.
\<close>

theorem frame_ids_distinct_within_stream:
  "distinct (map frame_id (writes (trace (snd (do_GET E rq)))))"
proof -
  have "map id_suffix (map frame_id (writes (trace (snd (do_GET E rq)))))
          = suffixes (trace (snd (do_GET E rq)))"
    by (simp add: suffixes_def)
  then have "distinct (map id_suffix (map frame_id (writes (trace (snd (do_GET E rq))))))"
    using do_GET_suffixes_distinct [of E rq] by (simp only:)
  then show ?thesis
    by (rule distinct_under_map)
qed

theorem frame_ids_distinct_within_stream_witness:
  "map frame_id
     (writes (trace (snd (do_GET env0 \<lparr>path = stream_path, query = [''count'' \<mapsto> [''3'']]\<rparr>))))
     = [''1757415600000-0'', ''1757415600001-1'', ''1757415600002-2'', ''1757415600003-complete'']
   \<and> distinct (map frame_id
     (writes (trace (snd (do_GET env0 \<lparr>path = stream_path, query = [''count'' \<mapsto> [''3'']]\<rparr>)))))"
proof -
  have r: "requested_count [''count'' \<mapsto> [''3'']] = Inr 3"
    by (simp add: requested_count_def py_int_eval)
  have c: "count_of [''count'' \<mapsto> [''3'']] = Inr 3"
    using count_of_requested [OF r] by simp
  have s: "\<forall>i < length (py_slice_to mock_logs 3). int i < 3 - 1 \<longrightarrow>
             sleep_error (Finite 1) = None \<and> (\<forall>n. nap env0 n = None)"
    by (simp add: sleep_one_second nap_env0)
  note w = stream_ok_writes(1) [OF io_env0 interval_default c s]
  have ids: "map frame_id
     (writes (trace (snd (do_GET env0 \<lparr>path = stream_path, query = [''count'' \<mapsto> [''3'']]\<rparr>))))
     = [''1757415600000-0'', ''1757415600001-1'', ''1757415600002-2'', ''1757415600003-complete'']"
    unfolding w
    by (simp add: py_slice_to_def mock_logs_def log_frame_def complete_frame_def env0_def
        str_int_def str_nat.simps digit_chars)
  show ?thesis
    using frame_ids_distinct_within_stream
      [of env0 "\<lparr>path = stream_path, query = [''count'' \<mapsto> [''3'']]\<rparr>"] ids
    by simp
qed

section \<open>A failing connection\<close>

lemma attempts_append: "attempts (a @ b) = attempts a + attempts b"
  by (simp add: attempts_def)

lemma attempts_single: "attempts [ev] = (if is_io ev then 1 else 0)"
  by (simp add: attempts_def)

lemma attempt_step:
  assumes "good E s" and "is_io ev"
  shows "case attempt E ev s of (None, s') \<Rightarrow> good E s' | (Some x, s') \<Rightarrow> broke E x s'"
proof (cases "io E (nio s)")
  case None
  then show ?thesis
    using assms
    by (auto simp: attempt_def good_def all_succeeded_def attempts_append attempts_single
        less_Suc_eq)
next
  case (Some x)
  then show ?thesis
    using assms
    by (simp add: attempt_def good_def broke_def)
qed

lemma good_nclk: "good E (s\<lparr>nclk := n\<rparr>) = good E s"
  by (simp add: good_def)

lemma good_emit: "\<not> is_io ev \<Longrightarrow> good E s \<Longrightarrow> good E (emit ev s)"
  by (simp add: good_def emit_def all_succeeded_def attempts_append attempts_single)

lemma time_sleep_step:
  assumes "good E s"
  shows "case time_sleep E iv s of (None, s') \<Rightarrow> good E s' | (Some x, s') \<Rightarrow> good E s'"
  using assms by (simp add: time_sleep_def good_emit split: option.splits)

lemma emit_logs_step:
  assumes "good E s"
  shows "case emit_logs E iv cnt ps s of
           (None, s') \<Rightarrow> good E s'
         | (Some x, s') \<Rightarrow> broke E x s' \<or> good E s'"
  using assms
proof (induction ps arbitrary: s)
  case Nil
  then show ?case by simp
next
  case (Cons p ps)
  obtain i e where p: "p = (i, e)" by (cases p)
  let ?s0 = "s\<lparr>nclk := Suc (nclk s)\<rparr>"
  have g0: "good E ?s0"
    using Cons.prems by (simp add: good_nclk)
  obtain r1 s1 where w: "wfile_write E (log_frame (clock E (nclk s)) i e) ?s0 = (r1, s1)"
    by (cases "wfile_write E (log_frame (clock E (nclk s)) i e) ?s0")
  have w': "case (r1, s1) of (None, s') \<Rightarrow> good E s' | (Some x, s') \<Rightarrow> broke E x s'"
    using attempt_step [OF g0, of "Write (log_frame (clock E (nclk s)) i e)"] w
    by (simp add: wfile_write_def)
  show ?case
  proof (cases r1)
    case (Some x)
    then show ?thesis
      using w w' by (simp add: p)
  next
    case None
    then have g1: "good E s1"
      using w' by simp
    obtain r2 s2 where f: "wfile_flush E s1 = (r2, s2)"
      by (cases "wfile_flush E s1")
    have f': "case (r2, s2) of (None, s') \<Rightarrow> good E s' | (Some x, s') \<Rightarrow> broke E x s'"
      using attempt_step [OF g1, of Flush] f by (simp add: wfile_flush_def)
    show ?thesis
    proof (cases r2)
      case (Some x)
      then show ?thesis
        using w None f f' by (simp add: p)
    next
      case n2: None
      then have g2: "good E s2"
        using f' by simp
      obtain r3 s3 where sl: "(if int i < cnt - 1 then time_sleep E iv s2 else (None, s2)) = (r3, s3)"
        by (cases "if int i < cnt - 1 then time_sleep E iv s2 else (None, s2)")
      have g3: "good E s3"
        using time_sleep_step [OF g2, of iv] sl g2
        by (auto split: if_splits option.splits)
      show ?thesis
      proof (cases r3)
        case (Some x)
        then show ?thesis
          using w None f n2 sl g3 by (simp add: p)
      next
        case n3: None
        then show ?thesis
          using w None f n2 sl Cons.IH [OF g3] by (simp add: p)
      qed
    qed
  qed
qed

lemma send_complete_step:
  assumes "good E s"
  shows "case send_complete E cnt s of
           (None, s') \<Rightarrow> good E s'
         | (Some x, s') \<Rightarrow> broke E x s'"
proof -
  let ?s0 = "s\<lparr>nclk := Suc (nclk s)\<rparr>"
  have g0: "good E ?s0"
    using assms by (simp add: good_nclk)
  obtain r1 s1 where w: "wfile_write E (complete_frame (clock E (nclk s)) (strftime E) cnt) ?s0 = (r1, s1)"
    by (cases "wfile_write E (complete_frame (clock E (nclk s)) (strftime E) cnt) ?s0")
  have w': "case (r1, s1) of (None, s') \<Rightarrow> good E s' | (Some x, s') \<Rightarrow> broke E x s'"
    using attempt_step [OF g0, of "Write (complete_frame (clock E (nclk s)) (strftime E) cnt)"] w
    by (simp add: wfile_write_def)
  show ?thesis
  proof (cases r1)
    case (Some x)
    then show ?thesis
      using w w' by (simp add: send_complete_def)
  next
    case None
    then have g1: "good E s1"
      using w' by simp
    show ?thesis
      using w None attempt_step [OF g1, of Flush]
      by (simp add: send_complete_def wfile_flush_def)
  qed
qed

lemma stream_body_step:
  assumes "good E s"
  shows "case stream_body E iv cnt s of
           (None, s') \<Rightarrow> good E s'
         | (Some x, s') \<Rightarrow> broke E x s' \<or> good E s'"
proof -
  obtain r1 s1 where e: "emit_logs E iv cnt (List.enumerate 0 (py_slice_to mock_logs cnt)) s = (r1, s1)"
    by (cases "emit_logs E iv cnt (List.enumerate 0 (py_slice_to mock_logs cnt)) s")
  note st = emit_logs_step [OF assms, of iv cnt "List.enumerate 0 (py_slice_to mock_logs cnt)"]
  show ?thesis
  proof (cases r1)
    case (Some x)
    then show ?thesis
      using e st by (simp add: stream_body_def)
  next
    case None
    then have g1: "good E s1"
      using e st by simp
    show ?thesis
      using e None send_complete_step [OF g1, of cnt]
      by (auto simp: stream_body_def split: option.splits)
  qed
qed

lemma frame_io_is_io: "is_frame_io ev \<Longrightarrow> is_io ev"
  by (cases ev) simp_all

lemma succeeded_before:
  assumes "all_succeeded E tr" and "tr = pre @ ev # post" and "is_io ev"
  shows "io E (attempts pre) = None"
proof -
  have "attempts pre < attempts tr"
    using assms(2) assms(3) by (simp add: attempts_append attempts_def)
  then show ?thesis
    using assms(1) by (simp add: all_succeeded_def)
qed

lemma after_the_failure:
  assumes eq: "p @ [e', Print l] = pre @ ev # post"
    and ev: "is_io ev"
    and fail: "io E (attempts pre) = Some x"
    and ok: "all_succeeded E p"
    and brk: "io E (attempts p) = Some y"
  shows "post = [Print l] \<and> x = y"
proof (cases post rule: rev_cases)
  case Nil
  then have "ev = Print l"
    using eq by simp
  then show ?thesis
    using ev by simp
next
  case (snoc post1 z)
  then have z: "z = Print l" and eq1: "p @ [e'] = pre @ ev # post1"
    using eq by simp_all
  show ?thesis
  proof (cases post1 rule: rev_cases)
    case Nil
    then have "p = pre"
      using eq1 by simp
    then show ?thesis
      using snoc z Nil fail brk by simp
  next
    case (snoc post2 z')
    then have "p = pre @ ev # post2"
      using eq1 by simp
    then have "io E (attempts pre) = None"
      using succeeded_before [OF ok _ ev] by blast
    then show ?thesis
      using fail by simp
  qed
qed

lemma no_frame_io_headers:
  "ev \<in> set stream_headers \<Longrightarrow> \<not> is_frame_io ev"
  by (auto simp: stream_headers_def)

lemma headers_state:
  "end_headers E
     (set_cors_headers
       (emit (SendHeader ''Connection'' ''keep-alive'')
         (emit (SendHeader ''Cache-Control'' ''no-cache'')
           (emit (SendHeader ''Content-Type'' ''text/event-stream'')
             (emit (SendResponse 200) init)))))
   = (io E 0, \<lparr>trace = stream_headers, nio = Suc 0, nclk = 0\<rparr>)"
  by (simp add: end_headers_def attempt_def set_cors_headers_def emit_def init_def
      stream_headers_def)

lemma good_after_headers:
  "io E 0 = None \<Longrightarrow> good E \<lparr>trace = stream_headers, nio = Suc 0, nclk = 0\<rparr>"
  by (simp add: good_def all_succeeded_def attempts_def stream_headers_def)

lemma disconnect_trace:
  "do_GET (broken_at 7) \<lparr>path = stream_path, query = Map.empty\<rparr> =
     (None,
      \<lparr>trace = (stream_headers
          @ log_events (broken_at 7) (Finite 1) 12 (List.enumerate 0 (take 3 mock_logs)))
          @ Write (log_frame (clock (broken_at 7) 3) 3 (mock_logs ! 3)) # [Print ClientClosed],
       nio = 8, nclk = 4\<rparr>)"
proof -
  have d: "do_GET (broken_at 7) \<lparr>path = stream_path, query = Map.empty\<rparr>
             = stream_route (broken_at 7) Map.empty"
    by (simp add: do_GET_def)
  show ?thesis
    unfolding d stream_route_def headers_state
    by (simp add: interval_empty sleep_one_second count_of_def
        requested_count_def stream_body_def py_slice_to_def mock_logs_def wfile_write_def
        wfile_flush_def attempt_def time_sleep_def emit_def broken_at_def env0_def
        handler_line_def numeral_3_eq_3 sleeps_def)
qed

text \<open>
  C8: if an operation on the connection made for a frame (its write or its flush) fails,
  whether with a broken pipe or with any other exception, then nothing more is attempted
  on the connection: the only event after the failed operation is the line the handler
  prints for that exception, and the handler returns without raising.
\<close>

theorem failed_write_ends_stream_quietly:
  assumes tr: "trace (snd (do_GET E \<lparr>path = stream_path, query = q\<rparr>)) = pre @ ev # post"
    and ev: "is_frame_io ev"
    and fail: "io E (attempts pre) = Some x"
  shows "fst (do_GET E \<lparr>path = stream_path, query = q\<rparr>) = None
       \<and> post = [Print (handler_line x)]"
proof -
  let ?s = "\<lparr>trace = stream_headers, nio = Suc 0, nclk = 0\<rparr>"
  have d: "do_GET E \<lparr>path = stream_path, query = q\<rparr> = stream_route E q"
    by (simp add: do_GET_def)
  have io: "is_io ev"
    using ev by (rule frame_io_is_io)
  have inhead: "trace (snd (stream_route E q)) = stream_headers \<Longrightarrow> False"
  proof -
    assume "trace (snd (stream_route E q)) = stream_headers"
    then have "stream_headers = pre @ ev # post"
      using tr d by simp
    then have "ev \<in> set stream_headers"
      by (metis in_set_conv_decomp)
    then show False
      using ev no_frame_io_headers by blast
  qed
  show ?thesis
  proof (cases "io E 0")
    case (Some y)
    then have "trace (snd (stream_route E q)) = stream_headers"
      by (simp add: stream_route_def headers_state)
    then show ?thesis
      using inhead by blast
  next
    case None
    note g = good_after_headers [OF None]
    show ?thesis
    proof (cases "interval_of q")
      case (Inl y)
      then have "trace (snd (stream_route E q)) = stream_headers"
        using None by (simp add: stream_route_def headers_state)
      then show ?thesis
        using inhead by blast
    next
      case (Inr iv)
      show ?thesis
      proof (cases "count_of q")
        case (Inl y)
        then have "trace (snd (stream_route E q)) = stream_headers"
          using None Inr by (simp add: stream_route_def headers_state)
        then show ?thesis
          using inhead by blast
      next
        case cnt: (Inr cnt)
        obtain r1 s1 where b: "stream_body E iv cnt ?s = (r1, s1)"
          by (cases "stream_body E iv cnt ?s")
        note st = stream_body_step [OF g, of iv cnt]
        show ?thesis
        proof (cases r1)
          case n1: None
          then have res: "stream_route E q = (None, s1)"
            using None Inr cnt b by (simp add: stream_route_def headers_state)
          have "all_succeeded E (trace s1)"
            using st b n1 by (simp add: good_def)
          then have "io E (attempts pre) = None"
            using succeeded_before [OF _ _ io] tr d res by simp
          then show ?thesis
            using fail by simp
        next
          case (Some y)
          then have res: "stream_route E q = (None, emit (Print (handler_line y)) s1)"
            using None Inr cnt b by (simp add: stream_route_def headers_state)
          have full: "trace s1 @ [Print (handler_line y)] = pre @ ev # post"
            using tr d res by (simp add: emit_def)
          from st b Some have alt: "broke E y s1 \<or> good E s1"
            by simp
          show ?thesis
          proof (cases "broke E y s1")
            case True
            then have ne: "trace s1 \<noteq> []" and ok: "all_succeeded E (butlast (trace s1))"
              and brk: "io E (attempts (butlast (trace s1))) = Some y"
              by (simp_all add: broke_def)
            have "butlast (trace s1) @ [last (trace s1), Print (handler_line y)] = pre @ ev # post"
              using full ne by (metis append.assoc append_Cons append_Nil append_butlast_last_id)
            from after_the_failure [OF this io fail ok brk]
            show ?thesis
              using d res by simp
          next
            case False
            then have ok: "all_succeeded E (trace s1)"
              using alt by (simp add: good_def)
            have "post \<noteq> []"
              using full io by (cases post rule: rev_cases) auto
            then obtain post1 where "trace s1 = pre @ ev # post1"
              using full by (cases post rule: rev_cases) auto
            then have "io E (attempts pre) = None"
              using succeeded_before [OF ok _ io] by blast
            then show ?thesis
              using fail by simp
          qed
        qed
      qed
    qed
  qed
qed

theorem failed_write_ends_stream_quietly_witness:
  "trace (snd (do_GET (broken_at 7) \<lparr>path = stream_path, query = Map.empty\<rparr>)) =
     (stream_headers
        @ log_events (broken_at 7) (Finite 1) 12 (List.enumerate 0 (take 3 mock_logs)))
     @ Write (log_frame (clock (broken_at 7) 3) 3 (mock_logs ! 3)) # [Print ClientClosed]
   \<and> is_frame_io (Write (log_frame (clock (broken_at 7) 3) 3 (mock_logs ! 3)))
   \<and> io (broken_at 7)
        (attempts (stream_headers
           @ log_events (broken_at 7) (Finite 1) 12 (List.enumerate 0 (take 3 mock_logs))))
       = Some BrokenPipeError
   \<and> fst (do_GET (broken_at 7) \<lparr>path = stream_path, query = Map.empty\<rparr>) = None
   \<and> [Print ClientClosed] = [Print (handler_line BrokenPipeError)]"
proof -
  have t: "trace (snd (do_GET (broken_at 7) \<lparr>path = stream_path, query = Map.empty\<rparr>)) =
     (stream_headers
        @ log_events (broken_at 7) (Finite 1) 12 (List.enumerate 0 (take 3 mock_logs)))
     @ Write (log_frame (clock (broken_at 7) 3) 3 (mock_logs ! 3)) # [Print ClientClosed]"
    by (simp add: disconnect_trace)
  have e: "is_frame_io (Write (log_frame (clock (broken_at 7) 3) 3 (mock_logs ! 3)))"
    by simp
  have f: "io (broken_at 7)
        (attempts (stream_headers
           @ log_events (broken_at 7) (Finite 1) 12 (List.enumerate 0 (take 3 mock_logs))))
       = Some BrokenPipeError"
    by (simp add: attempts_def stream_headers_def mock_logs_def broken_at_def)
  from failed_write_ends_stream_quietly [OF t e f] t e f
  show ?thesis
    by simp
qed

section \<open>Where the handler departs from its description\<close>

lemma py_int_negatives:
  "py_int ''-1'' = Inr (- 1)" "py_int ''-2'' = Inr (- 2)" "py_int ''-5'' = Inr (- 5)"
  by (simp_all add: py_int_def strip_def split_sign_def is_space_def is_digit_def
      digits_value_def digit_val_def)

lemma py_float_abc: "py_float ''abc'' = Inl ValueError"
  by (simp add: py_float_def strip_def split_sign_def is_space_def lower_def parse_number_def
      parse_mantissa_def is_e_def is_digit_def)

text \<open>
  The information separators \<open>0x1C\<close> to \<open>0x1F\<close> are not stripped: a value such
  as \<open>%1C5\<close> does not parse.
\<close>

lemma separators_are_not_stripped:
  "py_int [char_of (28::nat), CHR ''5''] = Inl ValueError"
  "py_float [CHR ''5'', char_of (31::nat)] = Inl ValueError"
  by code_simp+

lemma py_float_only_value_error: "py_float v = Inl x \<Longrightarrow> x = ValueError"
  by (auto simp: py_float_def Let_def split: prod.splits if_splits option.splits)

lemma py_int_only_value_error: "py_int v = Inl x \<Longrightarrow> x = ValueError"
  by (auto simp: py_int_def Let_def split: prod.splits if_splits)

lemma sleeps_log_events_negative:
  "cnt < 0 \<Longrightarrow> sleeps (log_events E iv cnt ps) = []"
  by (rule sleeps_log_events_none) auto

lemma stream_ok_negative:
  assumes "\<forall>n. io E n = None"
    and "interval_of q = Inr iv"
    and "requested_count q = Inr c"
    and "- 12 < c" and "c < 0"
  shows "length (log_frames (trace (snd (do_GET E \<lparr>path = stream_path, query = q\<rparr>))))
           = nat (12 + c)"
    and "map total_logs (complete_frames (trace (snd (do_GET E \<lparr>path = stream_path, query = q\<rparr>))))
           = [Some c]"
    and "sleeps (trace (snd (do_GET E \<lparr>path = stream_path, query = q\<rparr>))) = []"
proof -
  have c: "count_of q = Inr c"
    using count_of_requested [OF assms(3)] assms(5) by simp
  have sl: "py_slice_to mock_logs c = take (nat (12 + c)) mock_logs"
    using assms(4) assms(5) by (simp add: py_slice_to_def length_mock_logs)
  have len: "length (take (nat (12 + c)) mock_logs) = nat (12 + c)"
    using assms(4) assms(5) by (simp add: length_mock_logs)
  have s: "\<forall>i < length (py_slice_to mock_logs c). int i < c - 1 \<longrightarrow>
             sleep_error iv = None \<and> (\<forall>n. nap E n = None)"
    using assms(5) by simp
  note w = stream_ok_writes [OF assms(1) assms(2) c s]
  have d: "do_GET E \<lparr>path = stream_path, query = q\<rparr> = stream_route E q"
    by (simp add: do_GET_def)
  show "length (log_frames (trace (snd (do_GET E \<lparr>path = stream_path, query = q\<rparr>))))
           = nat (12 + c)"
    using len
    by (simp add: w sl log_frames_def filter_log_frames frame_name_complete_frame)
  show "map total_logs (complete_frames (trace (snd (do_GET E \<lparr>path = stream_path, query = q\<rparr>))))
           = [Some c]"
    by (simp add: w sl complete_frames_def filter_complete_frames frame_name_complete_frame
        total_logs_complete_frame)
  show "sleeps (trace (snd (do_GET E \<lparr>path = stream_path, query = q\<rparr>))) = []"
    unfolding d stream_route_ok(2) [OF assms(1) assms(2) c s]
    using assms(5)
    by (simp add: sleeps_append sleeps_headers sleeps_log_events_negative) (simp add: sleeps_def)
qed

lemma not_found_route_trace:
  "hd (trace (snd (not_found_route E p))) = SendResponse 404"
  "log_frames (trace (snd (not_found_route E p))) = []"
  "complete_frames (trace (snd (not_found_route E p))) = []"
  by (simp_all add: not_found_route_def end_headers_def wfile_write_def attempt_def
      set_cors_headers_def emit_def init_def log_frames_def complete_frames_def writes_def
      split: option.splits)

subsection \<open>Where the description does hold\<close>

lemma sleeps_log_events_exact:
  "int (c + length xs) = cnt \<Longrightarrow>
     sleeps (log_events E iv cnt (List.enumerate c xs)) = replicate (length xs - 1) iv"
proof (induction xs arbitrary: c)
  case Nil
  then show ?case by (simp add: sleeps_def)
next
  case (Cons x xs)
  have ih: "sleeps (log_events E iv cnt (List.enumerate (Suc c) xs)) = replicate (length xs - 1) iv"
    using Cons.prems by (intro Cons.IH) simp
  show ?case
  proof (cases xs)
    case Nil
    then show ?thesis
      using Cons.prems by (simp add: sleeps_def)
  next
    case (Cons y ys)
    then have "int c < cnt - 1"
      using Cons.prems by simp
    then show ?thesis
      using ih Cons by (simp add: sleeps_def)
  qed
qed

text \<open>
  With a count between 1 and 12 the stream sleeps \<open>count - 1\<close> times, each time for the
  requested interval: once after every frame but the last.
\<close>

lemma valid_count_sleeps:
  assumes "1 \<le> k" and "k \<le> 12"
    and "requested_count q = Inr k"
    and "interval_of q = Inr iv" and "sleep_error iv = None"
    and "\<forall>n. io E n = None" and "\<forall>n. nap E n = None"
  shows "sleeps (trace (snd (do_GET E \<lparr>path = stream_path, query = q\<rparr>)))
           = replicate (nat k - 1) iv"
proof -
  have c: "count_of q = Inr k"
    using count_of_requested [OF assms(3)] assms(2) by simp
  have sl: "py_slice_to mock_logs k = take (nat k) mock_logs"
    using assms(1) by (simp add: py_slice_to_def)
  have len: "length (take (nat k) mock_logs) = nat k"
    using assms(1) assms(2) by (simp add: length_mock_logs)
  have s: "\<forall>i < length (py_slice_to mock_logs k). int i < k - 1 \<longrightarrow>
             sleep_error iv = None \<and> (\<forall>n. nap E n = None)"
    using assms(5) assms(7) by simp
  have d: "do_GET E \<lparr>path = stream_path, query = q\<rparr> = stream_route E q"
    by (simp add: do_GET_def)
  have e: "sleeps (log_events E iv k (List.enumerate 0 (take (nat k) mock_logs)))
             = replicate (length (take (nat k) mock_logs) - 1) iv"
    using assms(1) len by (intro sleeps_log_events_exact) simp
  show ?thesis
    unfolding d stream_route_ok(2) [OF assms(6) assms(4) c s]
    using assms(1) assms(2)
    by (simp add: sleeps_append sleeps_headers sl e length_mock_logs) (simp add: sleeps_def)
qed

text \<open>A count of 0, or of \<open>-12\<close> and below, selects no catalogue entry.\<close>

lemma empty_slice_counts:
  assumes "c = 0 \<or> c \<le> - 12"
    and "requested_count q = Inr c"
    and "interval_of q = Inr iv"
    and "\<forall>n. io E n = None"
  shows "log_frames (trace (snd (do_GET E \<lparr>path = stream_path, query = q\<rparr>))) = []"
    and "map total_logs (complete_frames (trace (snd (do_GET E \<lparr>path = stream_path, query = q\<rparr>))))
           = [Some c]"
proof -
  have c: "count_of q = Inr c"
    using count_of_requested [OF assms(2)] assms(1) by auto
  have sl: "py_slice_to mock_logs c = []"
    using assms(1) by (auto simp: py_slice_to_def length_mock_logs)
  have s: "\<forall>i < length (py_slice_to mock_logs c). int i < c - 1 \<longrightarrow>
             sleep_error iv = None \<and> (\<forall>n. nap E n = None)"
    by (simp add: sl)
  note w = stream_ok_writes [OF assms(4) assms(3) c s]
  show "log_frames (trace (snd (do_GET E \<lparr>path = stream_path, query = q\<rparr>))) = []"
    by (simp add: w sl log_frames_def frame_name_complete_frame)
  show "map total_logs (complete_frames (trace (snd (do_GET E \<lparr>path = stream_path, query = q\<rparr>))))
           = [Some c]"
    by (simp add: w sl complete_frames_def frame_name_complete_frame total_logs_complete_frame)
qed

subsection \<open>Counts below zero\<close>

text \<open>
  C2 says that \<open>totalLogs\<close> in the completion payload equals the number of \<open>log\<close>
  frames written.  The handler reports the clamped count itself: at \<open>count=-5\<close> it
  writes 7 \<open>log\<close> frames and reports \<open>totalLogs = -5\<close>.
\<close>

theorem total_logs_differs_at_minus_five:
  "length (log_frames
      (trace (snd (do_GET env0 \<lparr>path = stream_path, query = [''count'' \<mapsto> [''-5'']]\<rparr>)))) = 7
   \<and> map total_logs (complete_frames
      (trace (snd (do_GET env0 \<lparr>path = stream_path, query = [''count'' \<mapsto> [''-5'']]\<rparr>))))
     = [Some (- 5)]"
proof -
  have r: "requested_count [''count'' \<mapsto> [''-5'']] = Inr (- 5)"
    by (simp add: requested_count_def py_int_negatives)
  show ?thesis
    using stream_ok_negative(1,2) [OF io_env0 interval_default r] by simp
qed

text \<open>
  C3 says that every requested count \<open>\<le> 0\<close> yields no \<open>log\<close> frame.  At
  \<open>count=-1\<close> the slice \<open>mock_logs[:-1]\<close> holds 11 entries and the handler writes
  11 \<open>log\<close> frames.
\<close>

theorem minus_one_emits_eleven_logs:
  "requested_count [''count'' \<mapsto> [''-1'']] = Inr (- 1)
   \<and> length (log_frames
      (trace (snd (do_GET env0 \<lparr>path = stream_path, query = [''count'' \<mapsto> [''-1'']]\<rparr>)))) = 11"
proof -
  have r: "requested_count [''count'' \<mapsto> [''-1'']] = Inr (- 1)"
    by (simp add: requested_count_def py_int_negatives)
  show ?thesis
    using stream_ok_negative(1) [OF io_env0 interval_default r] r by simp
qed

text \<open>
  C9 says that a sleep of the requested interval separates each adjacent pair of
  \<open>log\<close> frames.  At \<open>count=-2\<close> the handler writes 10 \<open>log\<close> frames and the
  test \<open>i < count - 1\<close> never holds, so it never sleeps.
\<close>

theorem minus_two_streams_without_pacing:
  "length (log_frames
      (trace (snd (do_GET env0 \<lparr>path = stream_path, query = [''count'' \<mapsto> [''-2'']]\<rparr>)))) = 10
   \<and> sleeps
      (trace (snd (do_GET env0 \<lparr>path = stream_path, query = [''count'' \<mapsto> [''-2'']]\<rparr>))) = []"
proof -
  have r: "requested_count [''count'' \<mapsto> [''-2'']] = Inr (- 2)"
    by (simp add: requested_count_def py_int_negatives)
  show ?thesis
    using stream_ok_negative(1,3) [OF io_env0 interval_default r] by simp
qed

subsection \<open>Parameters that do not parse\<close>

text \<open>
  C4 says that a request whose \<open>interval\<close> or \<open>count\<close> does not parse gets a 400
  before any streaming header.  At \<open>count=abc\<close> the handler sends status 200 and the
  streaming headers, and then \<open>ValueError\<close> leaves it; no 400 is sent.
\<close>

theorem malformed_count_gets_200_then_raises:
  "py_int ''abc'' = Inl ValueError
   \<and> do_GET env0 \<lparr>path = stream_path, query = [''count'' \<mapsto> [''abc'']]\<rparr>
       = (Some ValueError, \<lparr>trace = stream_headers, nio = Suc 0, nclk = 0\<rparr>)
   \<and> hd stream_headers = SendResponse 200
   \<and> SendHeader ''Content-Type'' ''text/event-stream'' \<in> set stream_headers
   \<and> SendResponse 400 \<notin> set stream_headers"
proof -
  have d: "do_GET env0 \<lparr>path = stream_path, query = [''count'' \<mapsto> [''abc'']]\<rparr>
             = stream_route env0 [''count'' \<mapsto> [''abc'']]"
    by (simp add: do_GET_def)
  have i0: "io env0 0 = None"
    by (simp add: env0_def)
  have r: "stream_route env0 [''count'' \<mapsto> [''abc'']]
             = (Some ValueError, \<lparr>trace = stream_headers, nio = Suc 0, nclk = 0\<rparr>)"
    unfolding stream_route_def headers_state
    by (simp add: i0 interval_default count_of_def requested_count_def py_int_eval)
  show ?thesis
    by (simp add: d r py_int_eval) (simp add: stream_headers_def)
qed

text \<open>
  C4, as the handler has it: for every request to the streaming route whose
  \<open>interval\<close> or \<open>count\<close> parameter does not parse as a number, the headers having
  been sent, the handler has sent status 200 and the streaming headers and nothing else
  (no 400, no frame), and \<open>ValueError\<close> leaves \<open>do_GET\<close>.  (\<open>parse_qs\<close> never
  yields an empty list of values.)
\<close>

theorem unparsable_parameter_raises_after_headers:
  assumes "io E 0 = None"
    and "q ''interval'' \<noteq> Some []"
    and "q ''interval'' = Some (v # vs) \<and> py_float v = Inl ValueError
         \<or> q ''count'' = Some (c # cs) \<and> py_int c = Inl ValueError"
  shows "do_GET E \<lparr>path = stream_path, query = q\<rparr>
           = (Some ValueError, \<lparr>trace = stream_headers, nio = Suc 0, nclk = 0\<rparr>)
       \<and> hd stream_headers = SendResponse 200
       \<and> SendResponse 400 \<notin> set stream_headers
       \<and> writes stream_headers = []"
proof -
  have d: "do_GET E \<lparr>path = stream_path, query = q\<rparr> = stream_route E q"
    by (simp add: do_GET_def)
  have iv: "\<And>x. interval_of q = Inl x \<Longrightarrow> x = ValueError"
    using assms(2) py_float_only_value_error
    by (auto simp: interval_of_def split: option.splits list.splits sum.splits)
  have r: "stream_route E q = (Some ValueError, \<lparr>trace = stream_headers, nio = Suc 0, nclk = 0\<rparr>)"
  proof (cases "interval_of q")
    case (Inl x)
    then show ?thesis
      unfolding stream_route_def headers_state using iv [OF Inl] assms(1) by simp
  next
    case (Inr f)
    then have "q ''count'' = Some (c # cs) \<and> py_int c = Inl ValueError"
      using assms(3) by (auto simp: interval_of_def)
    then have "count_of q = Inl ValueError"
      by (simp add: count_of_def requested_count_def)
    then show ?thesis
      unfolding stream_route_def headers_state using Inr assms(1) by simp
  qed
  show ?thesis
    by (simp add: d r writes_headers) (simp add: stream_headers_def)
qed

theorem unparsable_parameter_raises_after_headers_witness:
  "io env0 0 = None
   \<and> [''interval'' \<mapsto> [''abc'']] ''interval'' \<noteq> Some []
   \<and> [''interval'' \<mapsto> [''abc'']] ''interval'' = Some (''abc'' # [])
   \<and> py_float ''abc'' = Inl ValueError
   \<and> do_GET env0 \<lparr>path = stream_path, query = [''interval'' \<mapsto> [''abc'']]\<rparr>
       = (Some ValueError, \<lparr>trace = stream_headers, nio = Suc 0, nclk = 0\<rparr>)"
proof -
  have i0: "io env0 0 = None"
    by (simp add: env0_def)
  have a: "[''interval'' \<mapsto> [''abc'']] ''interval'' \<noteq> Some []"
    by simp
  have b: "[''interval'' \<mapsto> [''abc'']] ''interval'' = Some (''abc'' # []) \<and> py_float ''abc'' = Inl ValueError
         \<or> [''interval'' \<mapsto> [''abc'']] ''count'' = Some (''0'' # []) \<and> py_int ''0'' = Inl ValueError"
    by (simp add: py_float_abc)
  have c: "[''interval'' \<mapsto> [''abc'']] ''interval'' = Some (''abc'' # [])"
    by simp
  note t = unparsable_parameter_raises_after_headers [OF i0 a b]
  show ?thesis
    by (intro conjI i0 a c py_float_abc conjunct1 [OF t])
qed

subsection \<open>The task id\<close>

text \<open>
  C5 says that the mock-stream route streams for every task id.  The task id
  \<open>other-task\<close> gets the 404 responder.
\<close>

theorem other_task_id_gets_404:
  "do_GET env0 \<lparr>path = ''/api/v1/log-streaming/test/mock-stream/other-task'', query = Map.empty\<rparr>
     = (None,
        \<lparr>trace =
           [SendResponse 404,
            SendHeader ''Content-Type'' ''application/json'',
            SendHeader ''Access-Control-Allow-Origin'' ''*'',
            SendHeader ''Access-Control-Allow-Methods'' ''GET, OPTIONS'',
            SendHeader ''Access-Control-Allow-Headers'' ''Cache-Control'',
            EndHeaders,
            Write (Body (ErrorData
              ''Cannot GET /api/v1/log-streaming/test/mock-stream/other-task''
              ''Not Found'' 404 ''Python Mock Server''))],
         nio = 2, nclk = 0\<rparr>)"
  by (simp add: do_GET_def stream_path_def health_path_def not_found_route_def end_headers_def
      wfile_write_def attempt_def set_cors_headers_def emit_def init_def env0_def server_name_def)

text \<open>
  C5, as the handler has it: a GET to \<open>/api/v1/log-streaming/test/mock-stream/{taskId}\<close>
  is dispatched to the streaming responder exactly when the task id is
  \<open>test-task-123\<close>; with any other task id it is dispatched to the 404 responder,
  which sends status 404 and writes no frame.
\<close>

theorem only_the_fixed_task_id_streams:
  "do_GET E \<lparr>path = mock_stream_prefix @ t, query = q\<rparr>
     = (if t = ''test-task-123'' then stream_route E q
        else not_found_route E (mock_stream_prefix @ t))
   \<and> (t \<noteq> ''test-task-123'' \<longrightarrow>
        hd (trace (snd (do_GET E \<lparr>path = mock_stream_prefix @ t, query = q\<rparr>)))
          = SendResponse 404
        \<and> log_frames (trace (snd (do_GET E \<lparr>path = mock_stream_prefix @ t, query = q\<rparr>))) = []
        \<and> complete_frames (trace (snd (do_GET E \<lparr>path = mock_stream_prefix @ t, query = q\<rparr>)))
          = [])"
proof -
  have a: "(mock_stream_prefix @ t = stream_path) = (t = ''test-task-123'')"
    by (simp add: mock_stream_prefix_def stream_path_def)
  have b: "mock_stream_prefix @ t \<noteq> health_path"
    by (simp add: mock_stream_prefix_def health_path_def)
  have d: "do_GET E \<lparr>path = mock_stream_prefix @ t, query = q\<rparr>
     = (if t = ''test-task-123'' then stream_route E q
        else not_found_route E (mock_stream_prefix @ t))"
    by (simp add: do_GET_def a b)
  show ?thesis
    unfolding d by (simp add: not_found_route_trace)
qed

theorem only_the_fixed_task_id_streams_witness:
  "''abc'' \<noteq> ''test-task-123''
   \<and> do_GET env0 \<lparr>path = mock_stream_prefix @ ''abc'', query = Map.empty\<rparr>
       = not_found_route env0 (mock_stream_prefix @ ''abc'')
   \<and> hd (trace (snd (do_GET env0 \<lparr>path = mock_stream_prefix @ ''abc'', query = Map.empty\<rparr>)))
       = SendResponse 404
   \<and> do_GET env0 \<lparr>path = mock_stream_prefix @ ''test-task-123'', query = Map.empty\<rparr>
       = stream_route env0 Map.empty"
proof -
  note a = only_the_fixed_task_id_streams [of env0 "''abc''" Map.empty]
  note b = only_the_fixed_task_id_streams [of env0 "''test-task-123''" Map.empty]
  have ne: "''abc'' \<noteq> ''test-task-123''"
    by simp
  have 1: "do_GET env0 \<lparr>path = mock_stream_prefix @ ''abc'', query = Map.empty\<rparr>
       = not_found_route env0 (mock_stream_prefix @ ''abc'')"
    using conjunct1 [OF a] ne by simp
  have 2: "hd (trace (snd (do_GET env0 \<lparr>path = mock_stream_prefix @ ''abc'', query = Map.empty\<rparr>)))
       = SendResponse 404"
    using conjunct2 [OF a] ne by blast
  have 3: "do_GET env0 \<lparr>path = mock_stream_prefix @ ''test-task-123'', query = Map.empty\<rparr>
       = stream_route env0 Map.empty"
    using conjunct1 [OF b] by simp
  show ?thesis
    by (intro conjI ne 1 2 3)
qed

end
